theory Spec2Isabelle
  imports Main
begin

text \<open>
  The auto-deployment workflow of the void-main-app gateway: the Express controller
  that answers the GitHub webhook and the manual trigger
  (\<^verbatim>\<open>src/src/controllers/DeploymentController.ts\<close>) and the shell script it runs
  (\<^verbatim>\<open>src/deploy-update.sh\<close>). Both are embedded as functions on explicit states; what
  lies outside the repository (the digest of Node's \<^verbatim>\<open>crypto\<close>, the outcome of git,
  npm, the service manager and the clock) enters as a parameter.
\<close>

section \<open>JavaScript values as the deployment controller sees them\<close>

text \<open>
  \<^verbatim>\<open>src/src/controllers/DeploymentController.ts\<close> reads \<^verbatim>\<open>req.body\<close>, the value that
  \<^verbatim>\<open>express.json()\<close> (installed in \<^verbatim>\<open>WebServer.setupMiddleware\<close>) parsed from the request.
  A parsed body is a JSON value. Object members are kept in the order in which
  JavaScript enumerates them; numbers are restricted to integers; strings are
  sequences of 8-bit characters (code points 0 to 255, which is what Node's HTTP
  parser delivers for a header value).
\<close>

datatype json =
    JNull
  | JBool bool
  | JNum int
  | JStr string
  | JArr "json list"
  | JObj "(string \<times> json) list"

text \<open>The exceptions the controller can meet.\<close>

datatype js_error = TypeError | RangeError

text \<open>
  Property access \<^verbatim>\<open>v.key\<close>. \<^verbatim>\<open>None\<close> stands for \<^verbatim>\<open>undefined\<close>. Reading a property of
  \<^verbatim>\<open>undefined\<close> or \<^verbatim>\<open>null\<close> throws a TypeError; reading one of the keys used by the
  controller from an array, string, number or boolean gives \<^verbatim>\<open>undefined\<close>.
\<close>

fun js_get :: "json option \<Rightarrow> string \<Rightarrow> js_error + json option" where
  "js_get None k = Inl TypeError"
| "js_get (Some JNull) k = Inl TypeError"
| "js_get (Some (JObj kvs)) k = Inr (map_of kvs k)"
| "js_get (Some v) k = Inr None"

text \<open>Truthiness, as \<^verbatim>\<open>||\<close> tests it.\<close>

fun js_truthy :: "json option \<Rightarrow> bool" where
  "js_truthy None = False"
| "js_truthy (Some JNull) = False"
| "js_truthy (Some (JBool b)) = b"
| "js_truthy (Some (JNum n)) = (n \<noteq> 0)"
| "js_truthy (Some (JStr s)) = (s \<noteq> [])"
| "js_truthy (Some v) = True"

text \<open>\<^verbatim>\<open>v || d\<close> with a string default.\<close>

definition js_or :: "json option \<Rightarrow> string \<Rightarrow> json" where
  "js_or v d = (case v of None \<Rightarrow> JStr d | Some x \<Rightarrow> if js_truthy v then x else JStr d)"

text \<open>Decimal digits of a natural number, and of an integer.\<close>

function show_nat :: "nat \<Rightarrow> string" where
  "show_nat n =
     (if n < 10 then [char_of (48 + n)]
      else show_nat (n div 10) @ [char_of (48 + n mod 10)])"
  by pat_completeness auto
termination
  by (relation "measure id") auto

definition show_int :: "int \<Rightarrow> string" where
  "show_int i = (if i < 0 then CHR ''-'' # show_nat (nat (- i)) else show_nat (nat i))"

text \<open>
  String coercion \<^verbatim>\<open>String(v)\<close>, which Node applies to the values of the \<^verbatim>\<open>env\<close> option
  of \<^verbatim>\<open>exec\<close>: an array joins its elements with commas (\<^verbatim>\<open>null\<close> elements are empty),
  an object is \<^verbatim>\<open>[object Object]\<close>.
\<close>

fun js_to_string :: "json \<Rightarrow> string"
  and js_join :: "json list \<Rightarrow> string" where
  "js_to_string JNull = ''null''"
| "js_to_string (JBool b) = (if b then ''true'' else ''false'')"
| "js_to_string (JNum n) = show_int n"
| "js_to_string (JStr s) = s"
| "js_to_string (JArr xs) = js_join xs"
| "js_to_string (JObj kvs) = ''[object Object]''"
| "js_join [] = []"
| "js_join [x] = (case x of JNull \<Rightarrow> [] | _ \<Rightarrow> js_to_string x)"
| "js_join (x # y # ys) =
     (case x of JNull \<Rightarrow> [] | _ \<Rightarrow> js_to_string x) @ '','' @ js_join (y # ys)"

subsection \<open>\<^verbatim>\<open>JSON.stringify\<close>\<close>

definition hex_digit :: "nat \<Rightarrow> char" where
  "hex_digit n = ''0123456789abcdef'' ! (n mod 16)"

text \<open>
  A character inside a JSON string: the quote and the backslash are escaped, the
  control characters have their short escapes or \<^verbatim>\<open>\u00XX\<close>.
\<close>

definition json_escape_char :: "char \<Rightarrow> string" where
  "json_escape_char c =
     (let n = (of_char c :: nat) in
      if c = CHR 0x22 then [CHR 0x5C, CHR 0x22]
      else if c = CHR 0x5C then [CHR 0x5C, CHR 0x5C]
      else if n = 8 then [CHR 0x5C, CHR ''b'']
      else if n = 9 then [CHR 0x5C, CHR ''t'']
      else if n = 10 then [CHR 0x5C, CHR ''n'']
      else if n = 12 then [CHR 0x5C, CHR ''f'']
      else if n = 13 then [CHR 0x5C, CHR ''r'']
      else if n < 32 then [CHR 0x5C, CHR ''u'', CHR ''0'', CHR ''0'',
                           hex_digit (n div 16), hex_digit n]
      else [c])"

definition json_quote :: "string \<Rightarrow> string" where
  "json_quote s = CHR 0x22 # concat (map json_escape_char s) @ [CHR 0x22]"

text \<open>The compact form: no white space, members in enumeration order.\<close>

fun JSON_stringify :: "json \<Rightarrow> string"
  and stringify_elements :: "json list \<Rightarrow> string"
  and stringify_members :: "(string \<times> json) list \<Rightarrow> string" where
  "JSON_stringify JNull = ''null''"
| "JSON_stringify (JBool b) = (if b then ''true'' else ''false'')"
| "JSON_stringify (JNum n) = show_int n"
| "JSON_stringify (JStr s) = json_quote s"
| "JSON_stringify (JArr xs) = ''['' @ stringify_elements xs @ '']''"
| "JSON_stringify (JObj kvs) = ''{'' @ stringify_members kvs @ ''}''"
| "stringify_elements [] = []"
| "stringify_elements [x] = JSON_stringify x"
| "stringify_elements (x # y # ys) = JSON_stringify x @ '','' @ stringify_elements (y # ys)"
| "stringify_members [] = []"
| "stringify_members [(k, v)] = json_quote k @ '':'' @ JSON_stringify v"
| "stringify_members ((k, v) # m # ms) =
     json_quote k @ '':'' @ JSON_stringify v @ '','' @ stringify_members (m # ms)"

subsection \<open>Buffers\<close>

text \<open>
  \<^verbatim>\<open>Buffer.from(s)\<close> encodes a string as UTF-8: a code point below 128 is one byte, a
  code point from 128 to 255 is two. \<^verbatim>\<open>Buffer.from(undefined)\<close> throws a TypeError.
  Bytes are natural numbers below 256.
\<close>

definition utf8_char :: "char \<Rightarrow> nat list" where
  "utf8_char c =
     (let n = (of_char c :: nat) in
      if n < 128 then [n] else [192 + n div 64, 128 + n mod 64])"

definition utf8_encode :: "string \<Rightarrow> nat list" where
  "utf8_encode s = concat (map utf8_char s)"

definition Buffer_from :: "string option \<Rightarrow> js_error + nat list" where
  "Buffer_from v = (case v of None \<Rightarrow> Inl TypeError | Some s \<Rightarrow> Inr (utf8_encode s))"

text \<open>\<^verbatim>\<open>crypto.timingSafeEqual\<close> throws a RangeError on buffers of different byte length.\<close>

definition timingSafeEqual :: "nat list \<Rightarrow> nat list \<Rightarrow> js_error + bool" where
  "timingSafeEqual a b = (if length a \<noteq> length b then Inl RangeError else Inr (a = b))"

text \<open>
  \<^verbatim>\<open>crypto.createHmac('sha256', key).update(msg).digest('hex')\<close> belongs to Node, not to
  the repository; the controller is modelled for any such function of the key and
  the bytes of the message.
\<close>

type_synonym hmac_hex = "string \<Rightarrow> nat list \<Rightarrow> string"


section \<open>The deployment controller\<close>

text \<open>
  \<^verbatim>\<open>class DeploymentController\<close>. The calls to the logger write nothing that the
  controller reads back and are left out. \<^verbatim>\<open>children\<close> are the child processes that
  \<^verbatim>\<open>executeCommand\<close> has started and whose callback has not fired yet;
  \<^verbatim>\<open>exitScheduled\<close> records the pending \<^verbatim>\<open>setTimeout(() => process.exit(0), 1000)\<close>.
\<close>

record process_env =
  GITHUB_WEBHOOK_SECRET :: "string option"
  DEPLOY_SCRIPT_PATH :: "string option"
  AUTO_RESTART :: "string option"

record launch =
  command :: string
  env_COMMIT_ID :: string
  env_COMMIT_MESSAGE :: string
  env_AUTHOR :: string

record controller =
  penv :: process_env
  webhookSecret :: string
  deploymentInProgress :: bool
  children :: "launch list"
  exitScheduled :: bool

text \<open>
  A request as Express hands it to the handler: the signature header (absent or a
  string), the bytes received on the wire, and the parsed body. The handlers only
  ever read \<^verbatim>\<open>req.headers\<close> and \<^verbatim>\<open>req.body\<close>.
\<close>

record request =
  x_hub_signature_256 :: "string option"
  raw_body :: "nat list"
  body :: json

record response =
  status :: nat
  sent :: json

datatype exec_result = Resolved string | Rejected string

text \<open>The constructor: \<^verbatim>\<open>process.env.GITHUB_WEBHOOK_SECRET || ''\<close>, no deployment running.\<close>

definition new_controller :: "process_env \<Rightarrow> controller" where
  "new_controller pe =
     \<lparr> penv = pe,
       webhookSecret = (case GITHUB_WEBHOOK_SECRET pe of None \<Rightarrow> [] | Some s \<Rightarrow> s),
       deploymentInProgress = False,
       children = [],
       exitScheduled = False \<rparr>"

text \<open>
  \<^verbatim>\<open>verifySignature\<close>: the expected signature is \<^verbatim>\<open>sha256=\<close> followed by the digest of the
  payload string under the secret; the two buffers are built first, the signature's
  before the expected one's, then compared.
\<close>

definition expectedSignature :: "hmac_hex \<Rightarrow> controller \<Rightarrow> string \<Rightarrow> string" where
  "expectedSignature H c payload = ''sha256='' @ H (webhookSecret c) (utf8_encode payload)"

definition verifySignature ::
  "hmac_hex \<Rightarrow> controller \<Rightarrow> string \<Rightarrow> string option \<Rightarrow> js_error + bool" where
  "verifySignature H c payload signature =
     (if webhookSecret c = [] then Inr True
      else
        case Buffer_from signature of
          Inl e \<Rightarrow> Inl e
        | Inr a \<Rightarrow>
            (case Buffer_from (Some (expectedSignature H c payload)) of
               Inl e \<Rightarrow> Inl e
             | Inr b \<Rightarrow> timingSafeEqual a b))"

text \<open>
  The three optional chains of \<^verbatim>\<open>startDeployment\<close>:
  \<^verbatim>\<open>webhookPayload?.head_commit.id\<close>, \<^verbatim>\<open>webhookPayload?.head_commit.message\<close> and
  \<^verbatim>\<open>webhookPayload?.head_commit.author.name\<close>. A missing payload ends the whole chain
  with \<^verbatim>\<open>undefined\<close>; behind the \<^verbatim>\<open>?.\<close> every access is an ordinary one and may throw.
\<close>

definition head_commit_field :: "json option \<Rightarrow> string \<Rightarrow> js_error + json option" where
  "head_commit_field wp k =
     (case wp of
        None \<Rightarrow> Inr None
      | Some JNull \<Rightarrow> Inr None
      | Some p \<Rightarrow>
          (case js_get (Some p) ''head_commit'' of
             Inl e \<Rightarrow> Inl e
           | Inr hc \<Rightarrow> js_get hc k))"

definition head_commit_author_name :: "json option \<Rightarrow> js_error + json option" where
  "head_commit_author_name wp =
     (case wp of
        None \<Rightarrow> Inr None
      | Some JNull \<Rightarrow> Inr None
      | Some p \<Rightarrow>
          (case js_get (Some p) ''head_commit'' of
             Inl e \<Rightarrow> Inl e
           | Inr hc \<Rightarrow>
               (case js_get hc ''author'' of
                  Inl e \<Rightarrow> Inl e
                | Inr au \<Rightarrow> js_get au ''name'')))"

text \<open>
  The arguments of \<^verbatim>\<open>executeCommand\<close>: the script
  (\<^verbatim>\<open>process.env.DEPLOY_SCRIPT_PATH || './deploy-update.sh'\<close>) and the three variables,
  evaluated in the order of the object literal.
\<close>

definition deployment_launch :: "process_env \<Rightarrow> json option \<Rightarrow> js_error + launch" where
  "deployment_launch pe wp =
     (let deployScript =
            (case DEPLOY_SCRIPT_PATH pe of
               None \<Rightarrow> ''./deploy-update.sh''
             | Some s \<Rightarrow> if s = [] then ''./deploy-update.sh'' else s) in
      case head_commit_field wp ''id'' of
        Inl e \<Rightarrow> Inl e
      | Inr cid \<Rightarrow>
          (case head_commit_field wp ''message'' of
             Inl e \<Rightarrow> Inl e
           | Inr msg \<Rightarrow>
               (case head_commit_author_name wp of
                  Inl e \<Rightarrow> Inl e
                | Inr nm \<Rightarrow>
                    Inr \<lparr> command = deployScript,
                          env_COMMIT_ID = js_to_string (js_or cid ''manual''),
                          env_COMMIT_MESSAGE = js_to_string (js_or msg ''Manual deployment''),
                          env_AUTHOR = js_to_string (js_or nm ''Manual'') \<rparr>)))"

text \<open>
  \<^verbatim>\<open>startDeployment\<close> is an async function. Line 119 sets the flag; the \<^verbatim>\<open>try\<close> block
  runs synchronously up to \<^verbatim>\<open>await this.executeCommand(...)\<close>; the \<^verbatim>\<open>finally\<close> block
  clears the flag. If building the arguments throws, \<^verbatim>\<open>catch\<close> and \<^verbatim>\<open>finally\<close> run at
  once and no process is started; otherwise the function is suspended with the
  child process running, and resumes when the callback of \<^verbatim>\<open>exec\<close> fires.
\<close>

definition startDeployment_enter :: "controller \<Rightarrow> controller" where
  "startDeployment_enter c = c\<lparr>deploymentInProgress := True\<rparr>"

definition startDeployment_finally :: "controller \<Rightarrow> controller" where
  "startDeployment_finally c = c\<lparr>deploymentInProgress := False\<rparr>"

definition startDeployment_sync :: "json option \<Rightarrow> controller \<Rightarrow> controller" where
  "startDeployment_sync wp c =
     (let c1 = startDeployment_enter c in
      case deployment_launch (penv c1) wp of
        Inl e \<Rightarrow> startDeployment_finally c1
      | Inr l \<Rightarrow> c1\<lparr>children := children c1 @ [l]\<rparr>)"

definition startDeployment_resume :: "exec_result \<Rightarrow> controller \<Rightarrow> controller" where
  "startDeployment_resume r c =
     startDeployment_finally
       (case r of
          Resolved out \<Rightarrow>
            (if AUTO_RESTART (penv c) = Some ''true'' then c\<lparr>exitScheduled := True\<rparr> else c)
        | Rejected err \<Rightarrow> c)"

text \<open>
  The callback of \<^verbatim>\<open>exec\<close> in \<^verbatim>\<open>executeCommand\<close>: an error (a non-zero exit status, or
  the kill after the timeout of 300000 ms) rejects the promise, anything else
  resolves it with the standard output.
\<close>

definition executeCommand_settle :: "nat \<Rightarrow> bool \<Rightarrow> string \<Rightarrow> exec_result" where
  "executeCommand_settle exit_status timed_out stdout =
     (if timed_out \<or> exit_status \<noteq> 0 then Rejected ''Command failed'' else Resolved stdout)"

definition json_error :: "nat \<Rightarrow> string \<Rightarrow> response" where
  "json_error code msg = \<lparr> status = code, sent = JObj [(''error'', JStr msg)] \<rparr>"

definition json_message :: "string \<Rightarrow> response" where
  "json_message msg = \<lparr> status = 200, sent = JObj [(''message'', JStr msg)] \<rparr>"

text \<open>
  \<^verbatim>\<open>handleWebhook\<close>, with its checks in the order of the source: signature, branch,
  deployment in progress. The two log lines before \<^verbatim>\<open>startDeployment\<close> read
  \<^verbatim>\<open>webhookPayload.head_commit.id\<close> and throw when there is no \<^verbatim>\<open>head_commit\<close>; every
  exception ends in the \<^verbatim>\<open>catch\<close> block with status 500. A member of the response whose
  value is \<^verbatim>\<open>undefined\<close> is not sent.
\<close>

definition handleWebhook :: "hmac_hex \<Rightarrow> controller \<Rightarrow> request \<Rightarrow> controller \<times> response" where
  "handleWebhook H c req =
     (let signature = x_hub_signature_256 req;
          payload = JSON_stringify (body req) in
      case verifySignature H c payload signature of
        Inl e \<Rightarrow> (c, json_error 500 ''Internal server error'')
      | Inr False \<Rightarrow> (c, json_error 401 ''Invalid signature'')
      | Inr True \<Rightarrow>
          (case js_get (Some (body req)) ''ref'' of
             Inl e \<Rightarrow> (c, json_error 500 ''Internal server error'')
           | Inr ref \<Rightarrow>
               if ref \<noteq> Some (JStr ''refs/heads/main'')
               then (c, json_message ''Ignored - not main branch'')
               else if deploymentInProgress c
               then (c, json_error 429 ''Deployment already in progress'')
               else
                 (case js_get (Some (body req)) ''head_commit'' of
                    Inl e \<Rightarrow> (c, json_error 500 ''Internal server error'')
                  | Inr head_commit \<Rightarrow>
                      (case js_get head_commit ''id'' of
                         Inl e \<Rightarrow> (c, json_error 500 ''Internal server error'')
                       | Inr cid \<Rightarrow>
                           (startDeployment_sync (Some (body req)) c,
                            \<lparr> status = 200,
                              sent =
                                JObj ([(''message'', JStr ''Deployment started'')] @
                                      (case cid of None \<Rightarrow> [] | Some v \<Rightarrow> [(''commit'', v)]) @
                                      [(''branch'', JStr ''main'')]) \<rparr>)))))"

definition manualDeploy :: "controller \<Rightarrow> controller \<times> response" where
  "manualDeploy c =
     (if deploymentInProgress c
      then (c, json_error 429 ''Deployment already in progress'')
      else (startDeployment_sync None c, json_message ''Manual deployment started''))"

text \<open>
  The controller runs on one thread: a handler, and the continuation of
  \<^verbatim>\<open>startDeployment\<close> after the \<^verbatim>\<open>await\<close>, each run to completion. Its life is a sequence
  of events: a webhook request, a manual request, or the callback of the child
  process at position \<^verbatim>\<open>i\<close> of \<^verbatim>\<open>children\<close>.
\<close>

datatype event = Webhook request | ManualDeploy | ExecDone nat exec_result

definition step :: "hmac_hex \<Rightarrow> controller \<Rightarrow> event \<Rightarrow> controller" where
  "step H c ev =
     (case ev of
        Webhook req \<Rightarrow> fst (handleWebhook H c req)
      | ManualDeploy \<Rightarrow> fst (manualDeploy c)
      | ExecDone i r \<Rightarrow>
          if i < length (children c)
          then startDeployment_resume r
                 (c\<lparr>children := take i (children c) @ drop (Suc i) (children c)\<rparr>)
          else c)"

definition run_events :: "hmac_hex \<Rightarrow> controller \<Rightarrow> event list \<Rightarrow> controller" where
  "run_events H c evs = foldl (step H) c evs"


section \<open>The deployment script\<close>

text \<open>
  \<^verbatim>\<open>src/deploy-update.sh\<close> runs under \<^verbatim>\<open>set -e\<close> with \<^verbatim>\<open>trap handle_error ERR\<close>. It is
  modelled on the part of the machine it reads and writes: the build output and
  the dependency tree of the checkout (flat lists of file name and content, absent
  when the directory does not exist), the two package files, the pointer file
  \<^verbatim>\<open>.last-backup\<close>, the record \<^verbatim>\<open>.deployment-info.json\<close>, the entries of
  \<^verbatim>\<open>/home/pi/backups\<close> with their modification times, the state of the OpenRC service,
  and the lines appended to \<^verbatim>\<open>logs/deployment.log\<close> (without their time stamps).
\<close>

datatype log_level = INFO | WARN | ERROR

type_synonym dir = "(string \<times> string) list"

record snapshot =
  snap_dist :: "dir option"
  snap_node_modules :: "dir option"
  snap_package_json :: "string option"
  snap_package_lock :: "string option"

record backup =
  bk_name :: string
  bk_mtime :: nat
  bk_files :: snapshot

record deployment_info =
  di_timestamp :: string
  di_commit :: string
  di_message :: string
  di_author :: string
  di_branch :: string
  di_success :: bool
  di_error :: "string option"

record host =
  dist_dir :: "dir option"
  node_modules :: "dir option"
  package_json :: "string option"
  package_lock_json :: "string option"
  last_backup :: "string option"
  deployment_info_json :: "deployment_info option"
  backups :: "backup list"
  service_running :: bool
  deployment_log :: "(log_level \<times> string) list"

text \<open>
  What the script receives from outside: the three variables set by the controller
  (empty when unset), and the answer of every external command it runs, in the
  order of the script. A command used as a condition answers yes or no; a command
  run on its own answers with its exit status, and the files it leaves behind.
  The commands of git are taken not to touch the files the script keeps for itself
  (\<^verbatim>\<open>dist\<close>, \<^verbatim>\<open>node_modules\<close>, \<^verbatim>\<open>.last-backup\<close>, \<^verbatim>\<open>.deployment-info.json\<close>, \<^verbatim>\<open>logs\<close>);
  copying and removing files on the local disk is taken to succeed.
\<close>

record script_env =
  COMMIT_ID :: string
  COMMIT_MESSAGE :: string
  AUTHOR :: string
  has_doas :: bool
  has_sudo :: bool
  has_git :: bool
  has_npm :: bool
  git_rev_parse_ok :: bool
  git_status_ok :: bool
  ping_ok :: bool
  date_stamp :: string
  clock :: nat
  rc_stop_ok :: bool
  git_stash :: nat
  git_fetch :: nat
  git_reset :: nat
  origin_package_json :: "string option"
  origin_package_lock :: "string option"
  git_clean :: nat
  npm_ci :: nat
  npm_ci_tree :: "dir option"
  npm_build :: nat
  npm_build_tree :: "dir option"
  date_iso :: string
  rc_start_ok :: bool
  alive_after_sleep :: bool
  rollback_start_ok :: bool
  rollback_date_iso :: string

definition BACKUP_DIR :: string where
  "BACKUP_DIR = ''/home/pi/backups''"

definition BRANCH :: string where
  "BRANCH = ''main''"

definition log_line :: "log_level \<Rightarrow> string \<Rightarrow> host \<Rightarrow> host" where
  "log_line lvl msg st = st\<lparr>deployment_log := deployment_log st @ [(lvl, msg)]\<rparr>"

definition log_info :: "string \<Rightarrow> host \<Rightarrow> host" where
  "log_info = log_line INFO"

definition log_warn :: "string \<Rightarrow> host \<Rightarrow> host" where
  "log_warn = log_line WARN"

definition log_error :: "string \<Rightarrow> host \<Rightarrow> host" where
  "log_error = log_line ERROR"

text \<open>\<^verbatim>\<open>${VAR:-unknown}\<close>\<close>

definition or_unknown :: "string \<Rightarrow> string" where
  "or_unknown v = (if v = [] then ''unknown'' else v)"

definition check_service :: "host \<Rightarrow> bool" where
  "check_service st = service_running st"

text \<open>
  \<^verbatim>\<open>stop_service\<close> and \<^verbatim>\<open>start_service\<close> run \<^verbatim>\<open>rc-service\<close> behind \<^verbatim>\<open>doas\<close> or \<^verbatim>\<open>sudo\<close> when one
  of them is installed and directly otherwise; the two branches log the same lines
  and differ only in the command, whose answer is given from outside.
\<close>

definition stop_service :: "script_env \<Rightarrow> host \<Rightarrow> host" where
  "stop_service env st =
     (if check_service st then
        (let st1 = log_info ''Stopping void-main service...'' st in
         if rc_stop_ok env
         then log_info ''Service stopped successfully'' (st1\<lparr>service_running := False\<rparr>)
         else log_warn ''Failed to stop service, continuing anyway...'' st1)
      else log_warn ''Service void-main not found or not running'' st)"

definition start_service :: "bool \<Rightarrow> host \<Rightarrow> bool \<times> host" where
  "start_service started st =
     (let st1 = log_info ''Starting void-main service...'' st in
      if started
      then (True, log_info ''Service started successfully'' (st1\<lparr>service_running := True\<rparr>))
      else (False, log_error ''Failed to start service'' st1))"

text \<open>
  \<^verbatim>\<open>cp -r dir "$BACKUP_PATH/"\<close> and \<^verbatim>\<open>cp file "$BACKUP_PATH/"\<close>: nothing is copied when the
  source does not exist; a directory copied over an existing one is merged into it.
\<close>

definition cp_r :: "dir option \<Rightarrow> dir option \<Rightarrow> dir option" where
  "cp_r src dst =
     (case src of
        None \<Rightarrow> dst
      | Some d \<Rightarrow>
          (case dst of
             None \<Rightarrow> Some d
           | Some old \<Rightarrow> Some (d @ filter (\<lambda>f. fst f \<notin> set (map fst d)) old)))"

definition cp_file :: "string option \<Rightarrow> string option \<Rightarrow> string option" where
  "cp_file src dst = (case src of None \<Rightarrow> dst | Some x \<Rightarrow> Some x)"

definition snapshot_of :: "host \<Rightarrow> snapshot" where
  "snapshot_of st =
     \<lparr> snap_dist = dist_dir st,
       snap_node_modules = node_modules st,
       snap_package_json = package_json st,
       snap_package_lock = package_lock_json st \<rparr>"

text \<open>
  \<^verbatim>\<open>mkdir -p "$BACKUP_PATH"\<close> and the four copies. A new directory gets the time of
  its creation; a directory of that name that is already there is reused, and its
  time moves only when a copy adds an entry to it.
\<close>

definition copy_into :: "nat \<Rightarrow> host \<Rightarrow> backup \<Rightarrow> backup" where
  "copy_into t st b =
     (let old = bk_files b;
          adds = ((dist_dir st \<noteq> None \<and> snap_dist old = None) \<or>
                  (node_modules st \<noteq> None \<and> snap_node_modules old = None) \<or>
                  (package_json st \<noteq> None \<and> snap_package_json old = None) \<or>
                  (package_lock_json st \<noteq> None \<and> snap_package_lock old = None)) in
      b\<lparr> bk_mtime := (if adds then t else bk_mtime b),
         bk_files :=
           \<lparr> snap_dist = cp_r (dist_dir st) (snap_dist old),
             snap_node_modules = cp_r (node_modules st) (snap_node_modules old),
             snap_package_json = cp_file (package_json st) (snap_package_json old),
             snap_package_lock = cp_file (package_lock_json st) (snap_package_lock old) \<rparr> \<rparr>)"

fun backup_into :: "string \<Rightarrow> nat \<Rightarrow> host \<Rightarrow> backup list \<Rightarrow> backup list" where
  "backup_into n t st [] = [\<lparr> bk_name = n, bk_mtime = t, bk_files = snapshot_of st \<rparr>]"
| "backup_into n t st (b # bs) =
     (if bk_name b = n then copy_into t st b # bs else b # backup_into n t st bs)"

text \<open>\<^verbatim>\<open>BACKUP_NAME="backup-$(date +%Y%m%d-%H%M%S)"\<close> and \<^verbatim>\<open>BACKUP_PATH="$BACKUP_DIR/$BACKUP_NAME"\<close>\<close>

definition BACKUP_NAME :: "script_env \<Rightarrow> string" where
  "BACKUP_NAME env = ''backup-'' @ date_stamp env"

definition BACKUP_PATH :: "script_env \<Rightarrow> string" where
  "BACKUP_PATH env = BACKUP_DIR @ ''/'' @ BACKUP_NAME env"

definition create_backup :: "script_env \<Rightarrow> host \<Rightarrow> host" where
  "create_backup env st =
     (let st1 = log_info ''Creating backup...'' st;
          st2 = st1\<lparr>backups := backup_into (BACKUP_NAME env) (clock env) st1 (backups st1)\<rparr>;
          st3 = log_info (''Backup created at '' @ BACKUP_PATH env) st2 in
      st3\<lparr>last_backup := Some (BACKUP_PATH env)\<rparr>)"

text \<open>
  \<^verbatim>\<open>restore_backup\<close>; \<^verbatim>\<open>path\<close> is what \<^verbatim>\<open>BACKUP_PATH=$(cat .last-backup)\<close> reads, and a
  directory exists at it when it names an entry of \<^verbatim>\<open>/home/pi/backups\<close>. The result
  is false when \<^verbatim>\<open>cp -r "$BACKUP_PATH"/* .\<close> finds nothing to copy and fails, which under
  \<^verbatim>\<open>set -e\<close> ends the script there.
\<close>

definition restore_backup :: "host \<Rightarrow> bool \<times> host" where
  "restore_backup st =
     (case last_backup st of
        None \<Rightarrow> (True, log_error ''No backup information found'' st)
      | Some path \<Rightarrow>
          (case find (\<lambda>b. BACKUP_DIR @ ''/'' @ bk_name b = path) (backups st) of
             None \<Rightarrow> (True, log_error (''Backup directory not found: '' @ path) st)
           | Some b \<Rightarrow>
               (let st1 = log_warn (''Restoring from backup: '' @ path) st;
                    st2 = st1\<lparr>dist_dir := None, node_modules := None\<rparr>;
                    s = bk_files b in
                if snap_dist s = None \<and> snap_node_modules s = None \<and>
                   snap_package_json s = None \<and> snap_package_lock s = None
                then (False, st2)
                else (True,
                      log_info ''Backup restored''
                        (st2\<lparr> dist_dir := snap_dist s,
                              node_modules := snap_node_modules s,
                              package_json := cp_file (snap_package_json s) (package_json st2),
                              package_lock_json :=
                                cp_file (snap_package_lock s) (package_lock_json st2) \<rparr>)))))"

text \<open>
  \<^verbatim>\<open>ls -1t\<close> lists the names, newest modification time first (entries of equal time
  in no order the script relies on); \<^verbatim>\<open>tail -n +6\<close> passes on the lines from the
  sixth; \<^verbatim>\<open>xargs -r rm -rf\<close> removes what they name.
\<close>

definition ls_1t :: "backup list \<Rightarrow> string list" where
  "ls_1t bs = map bk_name (rev (sort_key bk_mtime bs))"

definition prune_backups :: "backup list \<Rightarrow> backup list" where
  "prune_backups bs = filter (\<lambda>b. bk_name b \<notin> set (drop 5 (ls_1t bs))) bs"

definition cleanup_backups :: "host \<Rightarrow> host" where
  "cleanup_backups st =
     (let st1 = log_info ''Cleaning up old backups...'' st in
      st1\<lparr>backups := prune_backups (backups st1)\<rparr>)"

definition validate_deployment :: "host \<Rightarrow> bool \<times> host" where
  "validate_deployment st =
     (let st1 = log_info ''Validating deployment...'' st in
      case dist_dir st1 of
        None \<Rightarrow> (False, log_error ''Deployment validation failed: dist directory is empty'' st1)
      | Some d \<Rightarrow>
          if d = []
          then (False, log_error ''Deployment validation failed: dist directory is empty'' st1)
          else if map_of d ''index.js'' = None
          then (False, log_error ''Deployment validation failed: index.js not found'' st1)
          else (True, log_info ''Deployment validation successful'' st1))"

text \<open>
  How a shell function ends: it returns a status to its caller, or a command in its
  body fails and \<^verbatim>\<open>set -e\<close> makes the shell exit on the spot with the status of that
  command. The script does not set \<^verbatim>\<open>-E\<close> (\<^verbatim>\<open>errtrace\<close>), so the \<^verbatim>\<open>ERR\<close> trap is not
  inherited by the body of a function: the trap runs for a command of the top level
  that returns a non-zero status (the call \<^verbatim>\<open>deploy\<close> itself), not for a command that
  fails inside \<^verbatim>\<open>deploy\<close>.
\<close>

datatype outcome = Returned nat | Exited nat

definition success_record :: "script_env \<Rightarrow> deployment_info" where
  "success_record env =
     \<lparr> di_timestamp = date_iso env,
       di_commit = or_unknown (COMMIT_ID env),
       di_message = or_unknown (COMMIT_MESSAGE env),
       di_author = or_unknown (AUTHOR env),
       di_branch = BRANCH,
       di_success = True,
       di_error = None \<rparr>"

definition failure_record :: "script_env \<Rightarrow> deployment_info" where
  "failure_record env =
     \<lparr> di_timestamp = rollback_date_iso env,
       di_commit = or_unknown (COMMIT_ID env),
       di_message = or_unknown (COMMIT_MESSAGE env),
       di_author = or_unknown (AUTHOR env),
       di_branch = BRANCH,
       di_success = False,
       di_error = Some ''Deployment failed and was rolled back'' \<rparr>"

definition deploy :: "script_env \<Rightarrow> host \<Rightarrow> outcome \<times> host" where
  "deploy env st0 =
     (let st1 = create_backup env st0;
          st2 = stop_service env st1;
          st3 = log_info ''Stashing local changes...'' st2 in
      if git_stash env \<noteq> 0 then (Exited (git_stash env), st3) else
      let st4 = log_info ''Fetching latest changes from GitHub...'' st3 in
      if git_fetch env \<noteq> 0 then (Exited (git_fetch env), st4) else
      let st5 = (log_info (''Resetting to origin/'' @ BRANCH @ ''...'') st4)
                  \<lparr> package_json := origin_package_json env,
                    package_lock_json := origin_package_lock env \<rparr> in
      if git_reset env \<noteq> 0 then (Exited (git_reset env), st5) else
      if git_clean env \<noteq> 0 then (Exited (git_clean env), st5) else
      let st6 = log_info ''Installing dependencies...'' st5 in
      if \<not> has_npm env then (Returned 1, log_error ''npm not found'' st6) else
      let st7 = st6\<lparr>node_modules := npm_ci_tree env\<rparr> in
      if npm_ci env \<noteq> 0 then (Exited (npm_ci env), st7) else
      let st8 = (log_info ''Building application...'' st7)\<lparr>dist_dir := npm_build_tree env\<rparr> in
      if npm_build env \<noteq> 0 then (Exited (npm_build env), st8) else
      case validate_deployment st8 of
        (False, st9) \<Rightarrow> (Returned 1, log_error ''Deployment validation failed'' st9)
      | (True, st9) \<Rightarrow>
          (let st10 = st9\<lparr>deployment_info_json := Some (success_record env)\<rparr> in
           case start_service (rc_start_ok env) st10 of
             (False, st11) \<Rightarrow>
               (Returned 1, log_error ''Failed to start service after deployment'' st11)
           | (True, st11) \<Rightarrow>
               (let st12 = st11\<lparr>service_running :=
                                   (service_running st11 \<and> alive_after_sleep env)\<rparr> in
                if check_service st12
                then (Returned 0,
                      log_info ''=== Deployment completed successfully ===''
                        (cleanup_backups (log_info ''Service is running successfully'' st12)))
                else (Returned 1, log_error ''Service failed to start properly'' st12))))"

text \<open>\<^verbatim>\<open>handle_error\<close>, the \<^verbatim>\<open>ERR\<close> trap; it ends with \<^verbatim>\<open>exit 1\<close>.\<close>

definition handle_error :: "script_env \<Rightarrow> host \<Rightarrow> nat \<times> host" where
  "handle_error env st =
     (let st1 = log_error ''Deployment failed!'' st;
          st2 = log_warn ''Attempting to restore from backup...'' st1 in
      case restore_backup st2 of
        (False, st3) \<Rightarrow> (1, st3)
      | (True, st3) \<Rightarrow>
          (case start_service (rollback_start_ok env) st3 of
             (started, st4) \<Rightarrow>
               (let st5 = (if started then log_info ''Service restored from backup'' st4
                           else log_error ''Failed to restore service'' st4) in
                (1, st5\<lparr>deployment_info_json := Some (failure_record env)\<rparr>))))"

text \<open>
  The checks between \<^verbatim>\<open>Running pre-deployment checks...\<close> and \<^verbatim>\<open>Pre-deployment checks
  passed\<close>: the first that fails logs its message and the script exits with 1.
\<close>

definition pre_deployment_checks :: "script_env \<Rightarrow> string option" where
  "pre_deployment_checks env =
     (if \<not> has_git env then Some ''git is not installed''
      else if \<not> has_npm env then Some ''npm is not installed''
      else if \<not> git_rev_parse_ok env then Some ''Not in a git repository''
      else if \<not> git_status_ok env then Some ''Git repository is in a bad state''
      else if \<not> ping_ok env then Some ''No network connectivity to GitHub''
      else None)"

text \<open>The first lines of the log, and the choice between \<^verbatim>\<open>doas\<close> and \<^verbatim>\<open>sudo\<close>.\<close>

definition log_start :: "script_env \<Rightarrow> host \<Rightarrow> host" where
  "log_start env st =
     log_info (''Author: '' @ or_unknown (AUTHOR env))
       (log_info (''Commit Message: '' @ or_unknown (COMMIT_MESSAGE env))
         (log_info (''Commit ID: '' @ or_unknown (COMMIT_ID env))
           (log_info ''=== Starting auto-deployment ==='' st)))"

definition detect_sudo :: "script_env \<Rightarrow> host \<Rightarrow> host" where
  "detect_sudo env st =
     (if \<not> has_doas env \<and> \<not> has_sudo env
      then log_warn ''Neither doas nor sudo found, will try direct service commands'' st
      else st)"

text \<open>The script from its first line to its exit status.\<close>

definition deploy_update :: "script_env \<Rightarrow> host \<Rightarrow> nat \<times> host" where
  "deploy_update env st0 =
     (let st1 = log_start env st0 in
      if package_json st1 = None
      then (1, log_error ''package.json not found in /home/pi/void-main-app'' st1)
      else
        let st2 = detect_sudo env st1;
            st3 = log_info ''Running pre-deployment checks...'' st2 in
        case pre_deployment_checks env of
          Some msg \<Rightarrow> (1, log_error msg st3)
        | None \<Rightarrow>
            (let st4 = log_info ''Pre-deployment checks passed'' st3 in
             case deploy env st4 of
               (Exited n, st5) \<Rightarrow> (n, st5)
             | (Returned n, st5) \<Rightarrow>
                 if n = 0
                 then (0, log_info ''Auto-deployment script completed successfully'' st5)
                 else handle_error env st5))"

text \<open>Several runs of the script, one after the other, each with its own environment.\<close>

fun deploy_runs :: "script_env list \<Rightarrow> host \<Rightarrow> host" where
  "deploy_runs [] st = st"
| "deploy_runs (env # envs) st = deploy_runs envs (snd (deploy_update env st))"

fun all_succeed :: "script_env list \<Rightarrow> host \<Rightarrow> bool" where
  "all_succeed [] st = True"
| "all_succeed (env # envs) st =
     (fst (deploy_update env st) = 0 \<and> all_succeed envs (snd (deploy_update env st)))"


section \<open>Notions the properties are stated with\<close>



text \<open>
  The invariant of the controller: the flag is set exactly while one child process
  is running, and there is never a second one.
\<close>

definition one_deployment :: "controller \<Rightarrow> bool" where
  "one_deployment c =
     (if deploymentInProgress c then length (children c) = 1 else children c = [])"

section \<open>Sample inputs\<close>

text \<open>
  Concrete inputs on which the definitions are run. \<^verbatim>\<open>sample_hmac\<close> stands in for the
  digest: two hexadecimal digits of the sum of the bytes of key and message.
\<close>

definition sample_hmac :: hmac_hex where
  "sample_hmac key msg =
     (let n = sum_list (utf8_encode key) + sum_list msg in [hex_digit (n div 16), hex_digit n])"

definition sample_controller :: controller where
  "sample_controller =
     new_controller \<lparr> GITHUB_WEBHOOK_SECRET = Some ''s3cret'',
                      DEPLOY_SCRIPT_PATH = None,
                      AUTO_RESTART = None \<rparr>"

definition open_controller :: controller where
  "open_controller =
     new_controller \<lparr> GITHUB_WEBHOOK_SECRET = None,
                      DEPLOY_SCRIPT_PATH = None,
                      AUTO_RESTART = None \<rparr>"

definition sample_push :: "string \<Rightarrow> json" where
  "sample_push ref =
     JObj [(''ref'', JStr ref),
           (''head_commit'',
            JObj [(''id'', JStr ''abc123''),
                  (''message'', JStr ''fix''),
                  (''author'', JObj [(''name'', JStr ''ann'')])])]"

text \<open>A request for \<^verbatim>\<open>sample_push ref\<close>, signed over the payload the controller hashes.\<close>

definition signed_push :: "string \<Rightarrow> request" where
  "signed_push ref =
     \<lparr> x_hub_signature_256 =
         Some (expectedSignature sample_hmac sample_controller
                 (JSON_stringify (sample_push ref))),
       raw_body = utf8_encode (JSON_stringify (sample_push ref)),
       body = sample_push ref \<rparr>"


text \<open>
  A machine with a built checkout and a running service, and an environment in
  which every tool is present and every command succeeds; the build leaves
  \<^verbatim>\<open>dist/index.js\<close>.
\<close>

definition sample_host :: host where
  "sample_host =
     \<lparr> dist_dir = Some [(''index.js'', ''old build'')],
       node_modules = Some [(''express'', ''4'')],
       package_json = Some ''{}'',
       package_lock_json = None,
       last_backup = None,
       deployment_info_json = None,
       backups = [],
       service_running = True,
       deployment_log = [] \<rparr>"

definition sample_env :: "string \<Rightarrow> nat \<Rightarrow> script_env" where
  "sample_env stamp t =
     \<lparr> COMMIT_ID = ''abc123'',
       COMMIT_MESSAGE = ''fix'',
       AUTHOR = ''ann'',
       has_doas = True,
       has_sudo = False,
       has_git = True,
       has_npm = True,
       git_rev_parse_ok = True,
       git_status_ok = True,
       ping_ok = True,
       date_stamp = stamp,
       clock = t,
       rc_stop_ok = True,
       git_stash = 0,
       git_fetch = 0,
       git_reset = 0,
       origin_package_json = Some ''{}'',
       origin_package_lock = None,
       git_clean = 0,
       npm_ci = 0,
       npm_ci_tree = Some [(''express'', ''5'')],
       npm_build = 0,
       npm_build_tree = Some [(''index.js'', ''new build'')],
       date_iso = stamp,
       rc_start_ok = True,
       alive_after_sleep = True,
       rollback_start_ok = True,
       rollback_date_iso = stamp \<rparr>"

section \<open>Properties of the controller\<close>

subsection \<open>Signatures\<close>

lemma utf8_char_not_Nil: "utf8_char c \<noteq> []"
  by (simp add: utf8_char_def Let_def)

lemma utf8_char_prefix_inj:
  assumes "utf8_char c @ xs = utf8_char d @ ys"
  shows "c = d \<and> xs = ys"
proof -
  let ?n = "of_char c :: nat" and ?m = "of_char d :: nat"
  have "?n = ?m \<and> xs = ys"
  proof (cases "?n < 128")
    case True
    show ?thesis
    proof (cases "?m < 128")
      case True
      with \<open>?n < 128\<close> assms show ?thesis by (simp add: utf8_char_def Let_def)
    next
      case False
      with \<open>?n < 128\<close> assms show ?thesis by (simp add: utf8_char_def Let_def)
    qed
  next
    case False
    show ?thesis
    proof (cases "?m < 128")
      case True
      with \<open>\<not> ?n < 128\<close> assms show ?thesis by (simp add: utf8_char_def Let_def)
    next
      case False
      with \<open>\<not> ?n < 128\<close> assms
      have d: "?n div 64 = ?m div 64" and m: "?n mod 64 = ?m mod 64" and r: "xs = ys"
        by (simp_all add: utf8_char_def Let_def)
      have "?n = 64 * (?n div 64) + ?n mod 64" by simp
      also have "\<dots> = 64 * (?m div 64) + ?m mod 64" using d m by simp
      also have "\<dots> = ?m" by simp
      finally show ?thesis using r by simp
    qed
  qed
  then show ?thesis by simp
qed

lemma utf8_encode_inj: "utf8_encode s = utf8_encode t \<Longrightarrow> s = t"
proof (induction s arbitrary: t)
  case Nil
  then show ?case
    by (cases t) (simp_all add: utf8_encode_def utf8_char_not_Nil)
next
  case (Cons c s)
  show ?case
  proof (cases t)
    case Nil
    with Cons.prems show ?thesis by (simp add: utf8_encode_def utf8_char_not_Nil)
  next
    case (Cons d t')
    with Cons.prems have "utf8_char c @ utf8_encode s = utf8_char d @ utf8_encode t'"
      by (simp add: utf8_encode_def)
    then have "c = d \<and> utf8_encode s = utf8_encode t'" by (rule utf8_char_prefix_inj)
    with Cons.IH Cons show ?thesis by simp
  qed
qed

lemma verifySignature_accepts_iff:
  assumes "webhookSecret c \<noteq> []"
  shows "verifySignature H c payload signature = Inr True
         \<longleftrightarrow> signature = Some (expectedSignature H c payload)"
proof (cases signature)
  case None
  with assms show ?thesis by (simp add: verifySignature_def Buffer_from_def)
next
  case (Some s)
  with assms show ?thesis
    by (auto simp: verifySignature_def Buffer_from_def timingSafeEqual_def dest: utf8_encode_inj)
qed



lemma handleWebhook_state_if_busy_or_rejected:
  "fst (handleWebhook H c req) = c \<or>
   fst (handleWebhook H c req) = startDeployment_sync (Some (body req)) c"
  by (simp add: handleWebhook_def Let_def split: sum.split bool.split)


lemma sample_secret: "webhookSecret sample_controller = ''s3cret''"
  by (simp add: sample_controller_def new_controller_def)








text \<open>
  Claim C8. Without a secret (\<^verbatim>\<open>GITHUB_WEBHOOK_SECRET\<close> unset or empty) \<^verbatim>\<open>verifySignature\<close>
  returns true for every payload and every signature header, present or absent.
\<close>

theorem no_secret_accepts_all:
  assumes "webhookSecret c = []"
  shows "verifySignature H c payload signature = Inr True"
  using assms by (simp add: verifySignature_def)

theorem no_secret_accepts_all_witness:
  "webhookSecret open_controller = []
   \<and> verifySignature sample_hmac open_controller ''{}'' None = Inr True
   \<and> verifySignature sample_hmac open_controller ''{}'' (Some ''sha256=00'') = Inr True"
proof -
  have h: "webhookSecret open_controller = []"
    by (simp add: open_controller_def new_controller_def)
  from h no_secret_accepts_all [OF h, of sample_hmac "''{}''" None]
       no_secret_accepts_all [OF h, of sample_hmac "''{}''" "Some ''sha256=00''"]
  show ?thesis by simp
qed

text \<open>
  Claim C10. With a secret configured, a webhook request without a signature header
  makes \<^verbatim>\<open>Buffer.from\<close> throw, and one whose header has another byte length than the
  expected signature makes \<^verbatim>\<open>timingSafeEqual\<close> throw. In both cases the handler
  answers 500 \<^verbatim>\<open>Internal server error\<close>, not 401, and leaves the state unchanged.
\<close>

theorem malformed_signature_internal_error:
  assumes "webhookSecret c \<noteq> []"
    and "case x_hub_signature_256 req of
           None \<Rightarrow> True
         | Some s \<Rightarrow> length (utf8_encode s) \<noteq>
                     length (utf8_encode (expectedSignature H c (JSON_stringify (body req))))"
  shows "(\<exists>e. verifySignature H c (JSON_stringify (body req)) (x_hub_signature_256 req) = Inl e)
       \<and> handleWebhook H c req = (c, json_error 500 ''Internal server error'')"
  using assms
  by (auto simp: handleWebhook_def verifySignature_def Buffer_from_def timingSafeEqual_def Let_def
           split: option.splits)

theorem malformed_signature_internal_error_witness:
  "webhookSecret sample_controller \<noteq> []
   \<and> handleWebhook sample_hmac sample_controller
        ((signed_push ''refs/heads/main'')\<lparr>x_hub_signature_256 := None\<rparr>)
       = (sample_controller, json_error 500 ''Internal server error'')
   \<and> handleWebhook sample_hmac sample_controller
        ((signed_push ''refs/heads/main'')\<lparr>x_hub_signature_256 := Some ''sha256=''\<rparr>)
       = (sample_controller, json_error 500 ''Internal server error'')"
proof -
  have h: "webhookSecret sample_controller \<noteq> []" by (simp add: sample_secret)
  have a: "case x_hub_signature_256 ((signed_push ''refs/heads/main'')\<lparr>x_hub_signature_256 := None\<rparr>) of
             None \<Rightarrow> True
           | Some s \<Rightarrow> length (utf8_encode s) \<noteq>
               length (utf8_encode (expectedSignature sample_hmac sample_controller
                 (JSON_stringify (body ((signed_push ''refs/heads/main'')\<lparr>x_hub_signature_256 := None\<rparr>)))))"
    by simp
  have b: "case x_hub_signature_256 ((signed_push ''refs/heads/main'')\<lparr>x_hub_signature_256 := Some ''sha256=''\<rparr>) of
             None \<Rightarrow> True
           | Some s \<Rightarrow> length (utf8_encode s) \<noteq>
               length (utf8_encode (expectedSignature sample_hmac sample_controller
                 (JSON_stringify (body ((signed_push ''refs/heads/main'')\<lparr>x_hub_signature_256 := Some ''sha256=''\<rparr>)))))"
    by (simp add: expectedSignature_def sample_hmac_def utf8_encode_def utf8_char_def Let_def
          hex_digit_def)
  from h malformed_signature_internal_error [OF h a] malformed_signature_internal_error [OF h b] show ?thesis by simp
qed

subsection \<open>The branch filter\<close>




subsection \<open>One deployment at a time\<close>

text \<open>
  Claim C2. \<^verbatim>\<open>startDeployment\<close> sets the flag on entry and its \<^verbatim>\<open>finally\<close> block clears it.
  When the arguments of the script are built without an exception the function is
  suspended with the flag set and the child process started; when building them
  throws, the flag is already cleared on return. When the child process ends, with
  success or with an error, the resumed function clears the flag.
\<close>

theorem in_progress_flag_lifecycle:
  "deploymentInProgress (startDeployment_enter c)
   \<and> \<not> deploymentInProgress (startDeployment_finally c)
   \<and> \<not> deploymentInProgress (startDeployment_resume r c)
   \<and> (case deployment_launch (penv c) wp of
         Inl e \<Rightarrow> startDeployment_sync wp c = c\<lparr>deploymentInProgress := False\<rparr>
       | Inr l \<Rightarrow> startDeployment_sync wp c =
                   c\<lparr>deploymentInProgress := True, children := children c @ [l]\<rparr>)
   \<and> \<not> deploymentInProgress (step H (startDeployment_sync wp c) (ExecDone 0 r))"
proof (intro conjI)
  show "deploymentInProgress (startDeployment_enter c)"
    by (simp add: startDeployment_enter_def)
  show "\<not> deploymentInProgress (startDeployment_finally c)"
    by (simp add: startDeployment_finally_def)
  show "\<not> deploymentInProgress (startDeployment_resume r c)"
    by (simp add: startDeployment_resume_def startDeployment_finally_def)
  show "case deployment_launch (penv c) wp of
          Inl e \<Rightarrow> startDeployment_sync wp c = c\<lparr>deploymentInProgress := False\<rparr>
        | Inr l \<Rightarrow> startDeployment_sync wp c =
                    c\<lparr>deploymentInProgress := True, children := children c @ [l]\<rparr>"
    by (simp add: startDeployment_sync_def startDeployment_enter_def
          startDeployment_finally_def Let_def split: sum.split)
  show "\<not> deploymentInProgress (step H (startDeployment_sync wp c) (ExecDone 0 r))"
  proof (cases "deployment_launch (penv c) wp")
    case (Inl e)
    then show ?thesis
      by (simp add: step_def startDeployment_sync_def startDeployment_enter_def
            startDeployment_finally_def startDeployment_resume_def Let_def)
  next
    case (Inr l)
    then show ?thesis
      by (simp add: step_def startDeployment_sync_def startDeployment_enter_def
            startDeployment_finally_def startDeployment_resume_def Let_def)
  qed
qed

theorem in_progress_flag_lifecycle_witness:
  "deploymentInProgress (startDeployment_sync None sample_controller)
   \<and> \<not> deploymentInProgress
         (step sample_hmac (startDeployment_sync None sample_controller)
            (ExecDone 0 (executeCommand_settle 1 False [])))
   \<and> \<not> deploymentInProgress
         (step sample_hmac (startDeployment_sync None sample_controller)
            (ExecDone 0 (executeCommand_settle 0 False [])))
   \<and> \<not> deploymentInProgress
         (startDeployment_sync
            (Some (JObj [(''ref'', JStr ''refs/heads/main''),
                         (''head_commit'', JObj [(''id'', JStr ''abc123'')])]))
            sample_controller)"
proof -
  have l: "deployment_launch (penv sample_controller) None =
             Inr \<lparr> command = ''./deploy-update.sh'', env_COMMIT_ID = ''manual'',
                   env_COMMIT_MESSAGE = ''Manual deployment'', env_AUTHOR = ''Manual'' \<rparr>"
    by (simp add: deployment_launch_def head_commit_field_def head_commit_author_name_def
          js_or_def sample_controller_def new_controller_def)
  have t: "deployment_launch (penv sample_controller)
             (Some (JObj [(''ref'', JStr ''refs/heads/main''),
                          (''head_commit'', JObj [(''id'', JStr ''abc123'')])]))
           = Inl TypeError"
    by (simp add: deployment_launch_def head_commit_field_def head_commit_author_name_def
          sample_controller_def new_controller_def)
  note a = in_progress_flag_lifecycle
             [of sample_controller "executeCommand_settle 1 False []" None sample_hmac]
  note b = in_progress_flag_lifecycle
             [of sample_controller "executeCommand_settle 0 False []" None sample_hmac]
  note c = in_progress_flag_lifecycle
             [of sample_controller "executeCommand_settle 0 False []"
                 "Some (JObj [(''ref'', JStr ''refs/heads/main''),
                              (''head_commit'', JObj [(''id'', JStr ''abc123'')])])" sample_hmac]
  from a l have 1: "deploymentInProgress (startDeployment_sync None sample_controller)"
    by simp
  from a have 2: "\<not> deploymentInProgress
                     (step sample_hmac (startDeployment_sync None sample_controller)
                        (ExecDone 0 (executeCommand_settle 1 False [])))"
    by blast
  from b have 3: "\<not> deploymentInProgress
                     (step sample_hmac (startDeployment_sync None sample_controller)
                        (ExecDone 0 (executeCommand_settle 0 False [])))"
    by blast
  from c t have 4: "\<not> deploymentInProgress
                       (startDeployment_sync
                          (Some (JObj [(''ref'', JStr ''refs/heads/main''),
                                       (''head_commit'', JObj [(''id'', JStr ''abc123'')])]))
                          sample_controller)"
    by simp
  from 1 2 3 4 show ?thesis by blast
qed

lemma one_deployment_new: "one_deployment (new_controller pe)"
  by (simp add: one_deployment_def new_controller_def)

lemma one_deployment_sync:
  assumes "one_deployment c" and "\<not> deploymentInProgress c"
  shows "one_deployment (startDeployment_sync wp c)"
  using assms
  by (simp add: one_deployment_def startDeployment_sync_def startDeployment_enter_def
        startDeployment_finally_def Let_def split: sum.split)

lemma one_deployment_step:
  assumes "one_deployment c"
  shows "one_deployment (step H c ev)"
proof (cases ev)
  case (Webhook req)
  show ?thesis
  proof (cases "deploymentInProgress c")
    case True
    then have "fst (handleWebhook H c req) = c"
      by (simp add: handleWebhook_def Let_def split: sum.split bool.split)
    with assms Webhook show ?thesis by (simp add: step_def)
  next
    case False
    from handleWebhook_state_if_busy_or_rejected [of H c req]
    show ?thesis
      using assms one_deployment_sync [OF assms False] Webhook by (auto simp: step_def)
  qed
next
  case ManualDeploy
  with assms one_deployment_sync [OF assms] show ?thesis
    by (simp add: step_def manualDeploy_def)
next
  case (ExecDone i r)
  show ?thesis
  proof (cases "i < length (children c)")
    case False
    with assms ExecDone show ?thesis by (simp add: step_def)
  next
    case True
    with assms have "length (children c) = 1" and "i = 0"
      by (auto simp: one_deployment_def split: if_splits)
    with ExecDone show ?thesis
      by (simp add: step_def one_deployment_def startDeployment_resume_def
            startDeployment_finally_def split: exec_result.split)
  qed
qed

lemma one_deployment_run:
  "one_deployment c \<Longrightarrow> one_deployment (run_events H c evs)"
  unfolding run_events_def
  by (induction evs arbitrary: c) (simp_all add: one_deployment_step)

text \<open>
  Claim C1. The controller is followed from its construction through any sequence
  of webhook requests, manual requests and completions of the child process. In
  every state it reaches at most one child process is running, and the flag is set
  exactly when one is. While the flag is set, a manual trigger is answered with 429
  \<^verbatim>\<open>Deployment already in progress\<close>, and so is a webhook trigger, that is a webhook
  request that passes signature verification and pushes to \<^verbatim>\<open>refs/heads/main\<close>; the
  state, and with it the running attempt, is left as it was, and the controller has
  no queue to put the request in. No webhook request of any kind changes the state
  while the flag is set.
\<close>

theorem busy_trigger_rejected:
  assumes "c = run_events H (new_controller pe) evs"
  shows "length (children c) \<le> 1
       \<and> (deploymentInProgress c \<longleftrightarrow> children c \<noteq> [])
       \<and> (deploymentInProgress c \<longrightarrow>
            manualDeploy c = (c, json_error 429 ''Deployment already in progress'')
          \<and> fst (handleWebhook H c req) = c
          \<and> (verifySignature H c (JSON_stringify (body req)) (x_hub_signature_256 req) = Inr True
               \<and> js_get (Some (body req)) ''ref'' = Inr (Some (JStr ''refs/heads/main''))
             \<longrightarrow> handleWebhook H c req = (c, json_error 429 ''Deployment already in progress'')))"
proof -
  have inv: "one_deployment c"
    unfolding assms by (rule one_deployment_run [OF one_deployment_new])
  have a: "length (children c) \<le> 1" and b: "deploymentInProgress c \<longleftrightarrow> children c \<noteq> []"
    using inv by (auto simp: one_deployment_def split: if_splits)
  have d: "manualDeploy c = (c, json_error 429 ''Deployment already in progress'')"
    if "deploymentInProgress c"
    using that by (simp add: manualDeploy_def)
  have e: "fst (handleWebhook H c req) = c" if "deploymentInProgress c"
    using that by (simp add: handleWebhook_def Let_def split: sum.split bool.split)
  have f: "handleWebhook H c req = (c, json_error 429 ''Deployment already in progress'')"
    if "deploymentInProgress c"
      and "verifySignature H c (JSON_stringify (body req)) (x_hub_signature_256 req) = Inr True"
      and "js_get (Some (body req)) ''ref'' = Inr (Some (JStr ''refs/heads/main''))"
    using that by (simp add: handleWebhook_def Let_def)
  from a b d e f show ?thesis by blast
qed

theorem busy_trigger_rejected_witness:
  "deploymentInProgress (run_events sample_hmac sample_controller [ManualDeploy])
   \<and> length (children (run_events sample_hmac sample_controller [ManualDeploy])) \<le> 1
   \<and> manualDeploy (run_events sample_hmac sample_controller [ManualDeploy])
       = (run_events sample_hmac sample_controller [ManualDeploy],
          json_error 429 ''Deployment already in progress'')
   \<and> handleWebhook sample_hmac (run_events sample_hmac sample_controller [ManualDeploy])
         (signed_push ''refs/heads/main'')
       = (run_events sample_hmac sample_controller [ManualDeploy],
          json_error 429 ''Deployment already in progress'')"
proof -
  define c where "c = run_events sample_hmac sample_controller [ManualDeploy]"
  have r: "c = run_events sample_hmac
                 (new_controller \<lparr> GITHUB_WEBHOOK_SECRET = Some ''s3cret'',
                                  DEPLOY_SCRIPT_PATH = None, AUTO_RESTART = None \<rparr>)
                 [ManualDeploy]"
    by (simp add: c_def sample_controller_def)
  have c: "c = sample_controller
                 \<lparr> deploymentInProgress := True,
                   children := [\<lparr> command = ''./deploy-update.sh'', env_COMMIT_ID = ''manual'',
                                  env_COMMIT_MESSAGE = ''Manual deployment'',
                                  env_AUTHOR = ''Manual'' \<rparr>] \<rparr>"
    by (simp add: c_def run_events_def step_def manualDeploy_def sample_controller_def
          new_controller_def startDeployment_sync_def startDeployment_enter_def
          deployment_launch_def head_commit_field_def head_commit_author_name_def
          js_or_def Let_def)
  have busy: "deploymentInProgress c" by (simp add: c)
  have s: "webhookSecret c = webhookSecret sample_controller" by (simp add: c)
  have v: "verifySignature sample_hmac c (JSON_stringify (body (signed_push ''refs/heads/main'')))
             (x_hub_signature_256 (signed_push ''refs/heads/main'')) = Inr True"
    using verifySignature_accepts_iff [of c sample_hmac] s
    by (simp add: signed_push_def expectedSignature_def sample_secret)
  have m: "js_get (Some (body (signed_push ''refs/heads/main''))) ''ref''
             = Inr (Some (JStr ''refs/heads/main''))"
    by (simp add: signed_push_def sample_push_def)
  from busy_trigger_rejected [OF r, of "signed_push ''refs/heads/main''"] busy v m
  show ?thesis unfolding c_def by blast
qed

section \<open>Properties of the script\<close>

subsection \<open>What each function of the script leaves alone\<close>

lemmas log_defs = log_info_def log_warn_def log_error_def log_line_def

lemma log_line_frame [simp]:
  "dist_dir (log_line l m st) = dist_dir st"
  "node_modules (log_line l m st) = node_modules st"
  "package_json (log_line l m st) = package_json st"
  "package_lock_json (log_line l m st) = package_lock_json st"
  "last_backup (log_line l m st) = last_backup st"
  "deployment_info_json (log_line l m st) = deployment_info_json st"
  "backups (log_line l m st) = backups st"
  "service_running (log_line l m st) = service_running st"
  by (simp_all add: log_line_def)

lemma log_info_frame [simp]:
  "dist_dir (log_info m st) = dist_dir st"
  "node_modules (log_info m st) = node_modules st"
  "package_json (log_info m st) = package_json st"
  "package_lock_json (log_info m st) = package_lock_json st"
  "last_backup (log_info m st) = last_backup st"
  "deployment_info_json (log_info m st) = deployment_info_json st"
  "backups (log_info m st) = backups st"
  "service_running (log_info m st) = service_running st"
  by (simp_all add: log_info_def)

lemma log_warn_frame [simp]:
  "dist_dir (log_warn m st) = dist_dir st"
  "node_modules (log_warn m st) = node_modules st"
  "package_json (log_warn m st) = package_json st"
  "package_lock_json (log_warn m st) = package_lock_json st"
  "last_backup (log_warn m st) = last_backup st"
  "deployment_info_json (log_warn m st) = deployment_info_json st"
  "backups (log_warn m st) = backups st"
  "service_running (log_warn m st) = service_running st"
  by (simp_all add: log_warn_def)

lemma log_error_frame [simp]:
  "dist_dir (log_error m st) = dist_dir st"
  "node_modules (log_error m st) = node_modules st"
  "package_json (log_error m st) = package_json st"
  "package_lock_json (log_error m st) = package_lock_json st"
  "last_backup (log_error m st) = last_backup st"
  "deployment_info_json (log_error m st) = deployment_info_json st"
  "backups (log_error m st) = backups st"
  "service_running (log_error m st) = service_running st"
  by (simp_all add: log_error_def)

lemma log_start_frame [simp]:
  "dist_dir (log_start env st) = dist_dir st"
  "node_modules (log_start env st) = node_modules st"
  "package_json (log_start env st) = package_json st"
  "package_lock_json (log_start env st) = package_lock_json st"
  "last_backup (log_start env st) = last_backup st"
  "deployment_info_json (log_start env st) = deployment_info_json st"
  "backups (log_start env st) = backups st"
  "service_running (log_start env st) = service_running st"
  by (simp_all add: log_start_def)

lemma detect_sudo_frame [simp]:
  "dist_dir (detect_sudo env st) = dist_dir st"
  "node_modules (detect_sudo env st) = node_modules st"
  "package_json (detect_sudo env st) = package_json st"
  "package_lock_json (detect_sudo env st) = package_lock_json st"
  "last_backup (detect_sudo env st) = last_backup st"
  "deployment_info_json (detect_sudo env st) = deployment_info_json st"
  "backups (detect_sudo env st) = backups st"
  "service_running (detect_sudo env st) = service_running st"
  by (simp_all add: detect_sudo_def)

lemma stop_service_frame [simp]:
  "dist_dir (stop_service env st) = dist_dir st"
  "node_modules (stop_service env st) = node_modules st"
  "package_json (stop_service env st) = package_json st"
  "package_lock_json (stop_service env st) = package_lock_json st"
  "last_backup (stop_service env st) = last_backup st"
  "deployment_info_json (stop_service env st) = deployment_info_json st"
  "backups (stop_service env st) = backups st"
  "service_running (stop_service env st) = (service_running st \<and> \<not> rc_stop_ok env)"
  by (simp_all add: stop_service_def check_service_def Let_def)

lemma start_service_result [simp]:
  "fst (start_service ok st) = ok"
  "dist_dir (snd (start_service ok st)) = dist_dir st"
  "node_modules (snd (start_service ok st)) = node_modules st"
  "package_json (snd (start_service ok st)) = package_json st"
  "package_lock_json (snd (start_service ok st)) = package_lock_json st"
  "last_backup (snd (start_service ok st)) = last_backup st"
  "deployment_info_json (snd (start_service ok st)) = deployment_info_json st"
  "backups (snd (start_service ok st)) = backups st"
  "service_running (snd (start_service ok st)) = (ok \<or> service_running st)"
  by (simp_all add: start_service_def Let_def)

lemma validate_deployment_result [simp]:
  "fst (validate_deployment st) =
     (case dist_dir st of None \<Rightarrow> False | Some d \<Rightarrow> d \<noteq> [] \<and> map_of d ''index.js'' \<noteq> None)"
  "dist_dir (snd (validate_deployment st)) = dist_dir st"
  "node_modules (snd (validate_deployment st)) = node_modules st"
  "package_json (snd (validate_deployment st)) = package_json st"
  "package_lock_json (snd (validate_deployment st)) = package_lock_json st"
  "last_backup (snd (validate_deployment st)) = last_backup st"
  "deployment_info_json (snd (validate_deployment st)) = deployment_info_json st"
  "backups (snd (validate_deployment st)) = backups st"
  "service_running (snd (validate_deployment st)) = service_running st"
  by (simp_all add: validate_deployment_def Let_def split: option.split)

lemma copy_into_log [simp]: "copy_into t (log_info m st) b = copy_into t st b"
  by (simp add: copy_into_def)

lemma snapshot_of_log [simp]: "snapshot_of (log_info m st) = snapshot_of st"
  by (simp add: snapshot_of_def)

lemma backup_into_log [simp]: "backup_into n t (log_info m st) bs = backup_into n t st bs"
  by (induction bs) simp_all

lemma create_backup_frame [simp]:
  "dist_dir (create_backup env st) = dist_dir st"
  "node_modules (create_backup env st) = node_modules st"
  "package_json (create_backup env st) = package_json st"
  "package_lock_json (create_backup env st) = package_lock_json st"
  "last_backup (create_backup env st) = Some (BACKUP_PATH env)"
  "deployment_info_json (create_backup env st) = deployment_info_json st"
  "backups (create_backup env st) = backup_into (BACKUP_NAME env) (clock env) st (backups st)"
  "service_running (create_backup env st) = service_running st"
  by (simp_all add: create_backup_def Let_def)

lemma cleanup_backups_frame [simp]:
  "dist_dir (cleanup_backups st) = dist_dir st"
  "node_modules (cleanup_backups st) = node_modules st"
  "package_json (cleanup_backups st) = package_json st"
  "package_lock_json (cleanup_backups st) = package_lock_json st"
  "last_backup (cleanup_backups st) = last_backup st"
  "deployment_info_json (cleanup_backups st) = deployment_info_json st"
  "backups (cleanup_backups st) = prune_backups (backups st)"
  "service_running (cleanup_backups st) = service_running st"
  by (simp_all add: cleanup_backups_def Let_def)

lemma snapshot_of_prologue:
  "snapshot_of (detect_sudo env (log_start env st)) = snapshot_of st"
  by (simp add: snapshot_of_def)

lemma checks_passed_npm: "pre_deployment_checks env = None \<Longrightarrow> has_npm env"
  by (simp add: pre_deployment_checks_def split: if_splits)

lemma handle_error_fails: "fst (handle_error env st) = 1"
  by (simp add: handle_error_def Let_def split: prod.split bool.split)

subsection \<open>The ways through the script\<close>

lemma deploy_update_checks_passed:
  assumes "package_json st \<noteq> None" and "pre_deployment_checks env = None"
  shows "deploy_update env st =
           (case deploy env (log_info ''Pre-deployment checks passed''
                               (log_info ''Running pre-deployment checks...''
                                 (detect_sudo env (log_start env st)))) of
              (Exited n, st5) \<Rightarrow> (n, st5)
            | (Returned n, st5) \<Rightarrow>
                if n = 0
                then (0, log_info ''Auto-deployment script completed successfully'' st5)
                else handle_error env st5)"
  using assms by (auto simp: deploy_update_def Let_def)

lemma deploy_update_checks_failed:
  assumes "package_json st = None \<or> pre_deployment_checks env \<noteq> None"
  shows "fst (deploy_update env st) = 1"
  using assms by (auto simp: deploy_update_def Let_def)

lemma deploy_Exited_nonzero:
  assumes "deploy env st = (Exited n, st')"
  shows "n \<noteq> 0"
  using assms
  by (auto simp: deploy_def Let_def split: if_splits prod.splits bool.splits)

lemma deploy_success_backups:
  assumes "deploy env st = (Returned 0, st')"
  shows "backups st' = prune_backups (backup_into (BACKUP_NAME env) (clock env) st (backups st))"
proof -
  let ?st8 = "(log_info ''Building application...''
                ((log_info ''Installing dependencies...''
                   ((log_info (''Resetting to origin/'' @ BRANCH @ ''...'')
                      (log_info ''Fetching latest changes from GitHub...''
                        (log_info ''Stashing local changes...''
                          (stop_service env (create_backup env st)))))
                    \<lparr> package_json := origin_package_json env,
                      package_lock_json := origin_package_lock env \<rparr>))
                 \<lparr>node_modules := npm_ci_tree env\<rparr>))\<lparr>dist_dir := npm_build_tree env\<rparr>"
  obtain v st9 where v: "validate_deployment ?st8 = (v, st9)"
    by (cases "validate_deployment ?st8")
  let ?st10 = "st9\<lparr>deployment_info_json := Some (success_record env)\<rparr>"
  obtain s st11 where s: "start_service (rc_start_ok env) ?st10 = (s, st11)"
    by (cases "start_service (rc_start_ok env) ?st10")
  from v have b9: "backups st9 = backups ?st8"
    using validate_deployment_result(8) [of ?st8] by simp
  from s have b11: "backups st11 = backups ?st10"
    using start_service_result(8) [of "rc_start_ok env" ?st10] by simp
  from assms v s have "backups st' = prune_backups (backups st11)"
    by (auto simp: deploy_def Let_def split: if_splits bool.splits)
  with b9 b11 show ?thesis by simp
qed

lemma deploy_update_success_backups:
  assumes "fst (deploy_update env st) = 0"
  shows "\<exists>stx. backups (snd (deploy_update env st)) =
           prune_backups (backup_into (BACKUP_NAME env) (clock env) stx (backups st))"
proof -
  let ?st4 = "log_info ''Pre-deployment checks passed''
                (log_info ''Running pre-deployment checks...''
                  (detect_sudo env (log_start env st)))"
  have "\<not> (package_json st = None \<or> pre_deployment_checks env \<noteq> None)"
  proof
    assume "package_json st = None \<or> pre_deployment_checks env \<noteq> None"
    from deploy_update_checks_failed [OF this] assms show False by simp
  qed
  then have pj: "package_json st \<noteq> None" and pc: "pre_deployment_checks env = None"
    by simp_all
  obtain r st5 where d: "deploy env ?st4 = (r, st5)" by (cases "deploy env ?st4")
  from assms d have r: "r = Returned 0"
    and s: "snd (deploy_update env st) =
              log_info ''Auto-deployment script completed successfully'' st5"
    using deploy_Exited_nonzero [of env ?st4 _ st5] handle_error_fails [of env st5]
    by (auto simp: deploy_update_checks_passed [OF pj pc] split: if_splits outcome.splits)
  from d r have "backups st5 = prune_backups (backup_into (BACKUP_NAME env) (clock env) ?st4 (backups ?st4))"
    by (simp add: deploy_success_backups)
  then show ?thesis using s by auto
qed

lemma backup_into_fresh:
  "n \<notin> set (map bk_name bs) \<Longrightarrow>
   backup_into n t stx bs = bs @ [\<lparr> bk_name = n, bk_mtime = t, bk_files = snapshot_of stx \<rparr>]"
  by (induction bs) auto

subsection \<open>Pre-flight checks\<close>

text \<open>
  Claim C9, amended. The pre-flight checks are part of the script and so run in
  every run of it, that is on every deployment attempt, whatever runs went before.
  When one of them fails (or \<^verbatim>\<open>package.json\<close> is missing) the run ends with status 1
  and has changed nothing but the log, to which it has only added lines: no backup
  is created, the service is not stopped, the checkout is untouched and no
  deployment record is written.
\<close>

theorem preflight_failure_changes_nothing:
  assumes "st = deploy_runs envs st0"
    and "package_json st = None \<or> pre_deployment_checks env \<noteq> None"
  shows "fst (deploy_update env st) = 1
       \<and> snd (deploy_update env st) =
           st\<lparr>deployment_log := deployment_log (snd (deploy_update env st))\<rparr>
       \<and> take (length (deployment_log st)) (deployment_log (snd (deploy_update env st)))
           = deployment_log st"
proof (cases "package_json st = None")
  case True
  then show ?thesis
    by (simp add: deploy_update_def log_start_def Let_def log_defs)
next
  case False
  with assms(2) obtain msg where "pre_deployment_checks env = Some msg" by auto
  with False show ?thesis
    by (simp add: deploy_update_def log_start_def detect_sudo_def Let_def log_defs)
qed

theorem preflight_failure_changes_nothing_witness:
  "pre_deployment_checks ((sample_env ''20250101-000000'' 100)\<lparr>ping_ok := False\<rparr>) \<noteq> None
   \<and> deploy_update ((sample_env ''20250101-000000'' 100)\<lparr>ping_ok := False\<rparr>) sample_host
       = (1, sample_host\<lparr>deployment_log :=
                           [(INFO, ''=== Starting auto-deployment ===''),
                            (INFO, ''Commit ID: abc123''),
                            (INFO, ''Commit Message: fix''),
                            (INFO, ''Author: ann''),
                            (INFO, ''Running pre-deployment checks...''),
                            (ERROR, ''No network connectivity to GitHub'')]\<rparr>)"
proof -
  let ?env = "(sample_env ''20250101-000000'' 100)\<lparr>ping_ok := False\<rparr>"
  have a: "pre_deployment_checks ?env = Some ''No network connectivity to GitHub''"
    by (simp add: pre_deployment_checks_def sample_env_def)
  then have b: "package_json sample_host = None \<or> pre_deployment_checks ?env \<noteq> None" by simp
  have s: "sample_host = deploy_runs [] sample_host" by simp
  have l: "deployment_log (snd (deploy_update ?env sample_host)) =
             [(INFO, ''=== Starting auto-deployment ===''),
              (INFO, ''Commit ID: abc123''),
              (INFO, ''Commit Message: fix''),
              (INFO, ''Author: ann''),
              (INFO, ''Running pre-deployment checks...''),
              (ERROR, ''No network connectivity to GitHub'')]"
    using a
    by (simp add: deploy_update_def log_start_def detect_sudo_def Let_def log_defs or_unknown_def
          sample_env_def sample_host_def)
  from preflight_failure_changes_nothing [OF s b] a l show ?thesis by (simp add: prod_eq_iff)
qed

text \<open>
  The claim as stated fails: of two runs in a row the second runs the checks again.
  Here the first run deploys, the network is down at the second, and the second is
  stopped by its own pre-flight check; the log holds the line that opens the checks
  twice.
\<close>

theorem preflight_runs_every_attempt_counterexample:
  "fst (deploy_update (sample_env ''20250101-000000'' 100) sample_host) = 0
   \<and> fst (deploy_update ((sample_env ''20250101-000100'' 160)\<lparr>ping_ok := False\<rparr>)
            (snd (deploy_update (sample_env ''20250101-000000'' 100) sample_host))) = 1
   \<and> count_list
        (deployment_log
           (deploy_runs [sample_env ''20250101-000000'' 100,
                         (sample_env ''20250101-000100'' 160)\<lparr>ping_ok := False\<rparr>]
              sample_host))
        (INFO, ''Running pre-deployment checks...'') = 2
   \<and> last (deployment_log
             (deploy_runs [sample_env ''20250101-000000'' 100,
                           (sample_env ''20250101-000100'' 160)\<lparr>ping_ok := False\<rparr>]
                sample_host))
       = (ERROR, ''No network connectivity to GitHub'')"
  by code_simp

subsection \<open>Failure and rollback\<close>

lemma deploy_build_failure:
  assumes "has_npm env"
    and "git_stash env = 0" and "git_fetch env = 0" and "git_reset env = 0"
    and "git_clean env = 0" and "npm_ci env = 0" and "npm_build env \<noteq> 0"
  shows "fst (deploy env st) = Exited (npm_build env)
       \<and> deployment_info_json (snd (deploy env st)) = deployment_info_json st
       \<and> dist_dir (snd (deploy env st)) = npm_build_tree env
       \<and> node_modules (snd (deploy env st)) = npm_ci_tree env
       \<and> service_running (snd (deploy env st)) = (service_running st \<and> \<not> rc_stop_ok env)"
  using assms by (simp add: deploy_def Let_def)

lemma deploy_command_failure:
  assumes "has_npm env"
    and "git_stash env \<noteq> 0 \<or> git_fetch env \<noteq> 0 \<or> git_reset env \<noteq> 0 \<or>
         git_clean env \<noteq> 0 \<or> npm_ci env \<noteq> 0 \<or> npm_build env \<noteq> 0"
  shows "\<exists>n. fst (deploy env st) = Exited n
           \<and> n \<noteq> 0
           \<and> n \<in> set [git_stash env, git_fetch env, git_reset env, git_clean env,
                        npm_ci env, npm_build env]"
    and "deployment_info_json (snd (deploy env st)) = deployment_info_json st"
    and "service_running (snd (deploy env st)) = (service_running st \<and> \<not> rc_stop_ok env)"
    and "last_backup (snd (deploy env st)) = Some (BACKUP_PATH env)"
  using assms by (auto simp: deploy_def Let_def)

text \<open>
  Claim C3 says that every deployment attempt that fails at a fatal step is rolled
  back. The script arranges that with \<^verbatim>\<open>set -e\<close> and \<^verbatim>\<open>trap handle_error ERR\<close>, but the
  trap does not reach into the function \<^verbatim>\<open>deploy\<close>. When one of \<^verbatim>\<open>git stash\<close>, \<^verbatim>\<open>git fetch\<close>,
  \<^verbatim>\<open>git reset\<close>, \<^verbatim>\<open>git clean\<close>, \<^verbatim>\<open>npm ci\<close> and \<^verbatim>\<open>npm run build\<close> returns a non-zero
  status, the script ends with the status of that command and the promise of
  \<^verbatim>\<open>executeCommand\<close> is rejected, but \<^verbatim>\<open>handle_error\<close> never runs: no failure record is
  written, the service is not started again, and the backup this run made (the
  pointer names it) is not restored. After a failed build the build output and the
  dependency tree are what the failed commands left.
\<close>

theorem failed_command_skips_rollback:
  assumes "package_json st \<noteq> None" and "pre_deployment_checks env = None"
    and "git_stash env \<noteq> 0 \<or> git_fetch env \<noteq> 0 \<or> git_reset env \<noteq> 0 \<or>
         git_clean env \<noteq> 0 \<or> npm_ci env \<noteq> 0 \<or> npm_build env \<noteq> 0"
  shows "fst (deploy_update env st) \<noteq> 0
       \<and> fst (deploy_update env st) \<in>
           set [git_stash env, git_fetch env, git_reset env, git_clean env,
                npm_ci env, npm_build env]
       \<and> executeCommand_settle (fst (deploy_update env st)) False out = Rejected ''Command failed''
       \<and> deployment_info_json (snd (deploy_update env st)) = deployment_info_json st
       \<and> service_running (snd (deploy_update env st)) = (service_running st \<and> \<not> rc_stop_ok env)
       \<and> last_backup (snd (deploy_update env st)) = Some (BACKUP_PATH env)
       \<and> (git_stash env = 0 \<and> git_fetch env = 0 \<and> git_reset env = 0 \<and> git_clean env = 0 \<and>
           npm_ci env = 0
          \<longrightarrow> fst (deploy_update env st) = npm_build env
            \<and> dist_dir (snd (deploy_update env st)) = npm_build_tree env
            \<and> node_modules (snd (deploy_update env st)) = npm_ci_tree env)"
proof -
  let ?st4 = "log_info ''Pre-deployment checks passed''
                (log_info ''Running pre-deployment checks...''
                  (detect_sudo env (log_start env st)))"
  from assms(2) have npm: "has_npm env" by (rule checks_passed_npm)
  note d = deploy_command_failure [OF npm assms(3), of ?st4]
  from d(1) obtain n where n: "fst (deploy env ?st4) = Exited n" "n \<noteq> 0"
    "n \<in> set [git_stash env, git_fetch env, git_reset env, git_clean env,
              npm_ci env, npm_build env]"
    by blast
  obtain st5 where p: "deploy env ?st4 = (Exited n, st5)"
    using n(1) by (cases "deploy env ?st4") simp
  have u: "deploy_update env st = (n, st5)"
    by (simp add: deploy_update_checks_passed [OF assms(1,2)] p)
  have b: "fst (deploy_update env st) = npm_build env
         \<and> dist_dir (snd (deploy_update env st)) = npm_build_tree env
         \<and> node_modules (snd (deploy_update env st)) = npm_ci_tree env"
    if z: "git_stash env = 0 \<and> git_fetch env = 0 \<and> git_reset env = 0 \<and> git_clean env = 0 \<and>
           npm_ci env = 0"
  proof -
    from z assms(3) have nz: "npm_build env \<noteq> 0" by simp
    from z have z': "git_stash env = 0" "git_fetch env = 0" "git_reset env = 0"
      "git_clean env = 0" "npm_ci env = 0" by simp_all
    from deploy_build_failure [OF npm z' nz, of ?st4] p u show ?thesis by simp
  qed
  from u n(2,3) d(2,3,4) p b show ?thesis
    by (simp add: executeCommand_settle_def)
qed

theorem failed_command_skips_rollback_witness:
  "package_json sample_host \<noteq> None
   \<and> npm_build ((sample_env ''20250101-000000'' 100)\<lparr>npm_build := 2, npm_build_tree := None\<rparr>) \<noteq> 0
   \<and> fst (deploy_update
             ((sample_env ''20250101-000000'' 100)\<lparr>npm_build := 2, npm_build_tree := None\<rparr>)
             sample_host) = 2
   \<and> deployment_info_json
        (snd (deploy_update
                ((sample_env ''20250101-000000'' 100)\<lparr>npm_build := 2, npm_build_tree := None\<rparr>)
                sample_host)) = None
   \<and> dist_dir
        (snd (deploy_update
                ((sample_env ''20250101-000000'' 100)\<lparr>npm_build := 2, npm_build_tree := None\<rparr>)
                sample_host)) = None
   \<and> \<not> service_running
          (snd (deploy_update
                  ((sample_env ''20250101-000000'' 100)\<lparr>npm_build := 2, npm_build_tree := None\<rparr>)
                  sample_host))"
proof -
  let ?env = "(sample_env ''20250101-000000'' 100)\<lparr>npm_build := 2, npm_build_tree := None\<rparr>"
  have a: "package_json sample_host \<noteq> None" by (simp add: sample_host_def)
  have b: "pre_deployment_checks ?env = None"
    by (simp add: pre_deployment_checks_def sample_env_def)
  have c: "git_stash ?env \<noteq> 0 \<or> git_fetch ?env \<noteq> 0 \<or> git_reset ?env \<noteq> 0 \<or>
           git_clean ?env \<noteq> 0 \<or> npm_ci ?env \<noteq> 0 \<or> npm_build ?env \<noteq> 0"
    by (simp add: sample_env_def)
  have z: "git_stash ?env = 0 \<and> git_fetch ?env = 0 \<and> git_reset ?env = 0 \<and>
           git_clean ?env = 0 \<and> npm_ci ?env = 0"
    by (simp add: sample_env_def)
  from failed_command_skips_rollback [OF a b c, where out = "[]"] z
  have "fst (deploy_update ?env sample_host) = npm_build ?env
      \<and> dist_dir (snd (deploy_update ?env sample_host)) = npm_build_tree ?env
      \<and> deployment_info_json (snd (deploy_update ?env sample_host))
          = deployment_info_json sample_host
      \<and> service_running (snd (deploy_update ?env sample_host))
          = (service_running sample_host \<and> \<not> rc_stop_ok ?env)"
    by blast
  with a show ?thesis by (simp add: sample_env_def sample_host_def)
qed

text \<open>
  Where \<^verbatim>\<open>deploy\<close> itself returns 1 (the build output fails validation, the service does
  not start, or it is not running after the settle period) the call \<^verbatim>\<open>deploy\<close> at the
  top level fails, the trap runs, and the rollback is as the specification
  describes it: the snapshot restored is the one this run created, provided its
  name is not already taken in the backup directory.
\<close>

lemma find_backup_path:
  assumes "bk_name e = BACKUP_NAME env" and "BACKUP_NAME env \<notin> set (map bk_name bs)"
  shows "find (\<lambda>b. BACKUP_DIR @ ''/'' @ bk_name b = BACKUP_PATH env) (bs @ [e]) = Some e"
  using assms by (induction bs) (auto simp: BACKUP_PATH_def)

lemma restore_backup_latest:
  assumes "last_backup s = Some (BACKUP_PATH env)" and "backups s = bs @ [e]"
    and "bk_name e = BACKUP_NAME env" and "BACKUP_NAME env \<notin> set (map bk_name bs)"
    and "snap_package_json (bk_files e) \<noteq> None"
  shows "fst (restore_backup s) = True"
    and "dist_dir (snd (restore_backup s)) = snap_dist (bk_files e)"
    and "node_modules (snd (restore_backup s)) = snap_node_modules (bk_files e)"
    and "package_json (snd (restore_backup s)) = snap_package_json (bk_files e)"
    and "last_backup (snd (restore_backup s)) = last_backup s"
    and "backups (snd (restore_backup s)) = backups s"
    and "service_running (snd (restore_backup s)) = service_running s"
  using assms find_backup_path [OF assms(3,4)]
  by (auto simp: restore_backup_def Let_def cp_file_def)

lemma handle_error_restores:
  assumes "last_backup s = Some (BACKUP_PATH env)" and "backups s = bs @ [e]"
    and "bk_name e = BACKUP_NAME env" and "BACKUP_NAME env \<notin> set (map bk_name bs)"
    and "snap_package_json (bk_files e) \<noteq> None"
  shows "fst (handle_error env s) = 1
       \<and> dist_dir (snd (handle_error env s)) = snap_dist (bk_files e)
       \<and> node_modules (snd (handle_error env s)) = snap_node_modules (bk_files e)
       \<and> package_json (snd (handle_error env s)) = snap_package_json (bk_files e)
       \<and> last_backup (snd (handle_error env s)) = Some (BACKUP_PATH env)
       \<and> backups (snd (handle_error env s)) = bs @ [e]
       \<and> deployment_info_json (snd (handle_error env s)) = Some (failure_record env)
       \<and> service_running (snd (handle_error env s)) = (rollback_start_ok env \<or> service_running s)"
proof -
  let ?s2 = "log_warn ''Attempting to restore from backup...'' (log_error ''Deployment failed!'' s)"
  have a: "last_backup ?s2 = Some (BACKUP_PATH env)" and b: "backups ?s2 = bs @ [e]"
    using assms(1,2) by simp_all
  note r = restore_backup_latest [OF a b assms(3,4,5)]
  obtain ok s3 where p: "restore_backup ?s2 = (ok, s3)" by (cases "restore_backup ?s2")
  with r have ok: "ok" and f: "dist_dir s3 = snap_dist (bk_files e)"
    "node_modules s3 = snap_node_modules (bk_files e)"
    "package_json s3 = snap_package_json (bk_files e)"
    "last_backup s3 = Some (BACKUP_PATH env)" "backups s3 = bs @ [e]"
    "service_running s3 = service_running s"
    using a b by simp_all
  obtain started s4 where q: "start_service (rollback_start_ok env) s3 = (started, s4)"
    by (cases "start_service (rollback_start_ok env) s3")
  with start_service_result [of "rollback_start_ok env" s3]
  have g: "started = rollback_start_ok env" "dist_dir s4 = dist_dir s3"
    "node_modules s4 = node_modules s3" "package_json s4 = package_json s3"
    "last_backup s4 = last_backup s3" "backups s4 = backups s3"
    "service_running s4 = (rollback_start_ok env \<or> service_running s3)"
    by simp_all
  show ?thesis
    using p ok q f g by (simp add: handle_error_def Let_def)
qed

lemma deploy_fatal_step:
  assumes "has_npm env"
    and "git_stash env = 0" and "git_fetch env = 0" and "git_reset env = 0"
    and "git_clean env = 0" and "npm_ci env = 0" and "npm_build env = 0"
    and "\<not> (case npm_build_tree env of
               None \<Rightarrow> False
             | Some d \<Rightarrow> d \<noteq> [] \<and> map_of d ''index.js'' \<noteq> None)
         \<or> \<not> rc_start_ok env \<or> \<not> alive_after_sleep env"
  shows "fst (deploy env st) = Returned 1
       \<and> last_backup (snd (deploy env st)) = Some (BACKUP_PATH env)
       \<and> backups (snd (deploy env st)) =
           backup_into (BACKUP_NAME env) (clock env) st (backups st)"
  using assms
  by (auto simp: deploy_def Let_def split_beta bool.case_eq_if check_service_def)

lemma rollback_on_fatal_step:
  assumes "package_json st \<noteq> None" and "pre_deployment_checks env = None"
    and "git_stash env = 0" and "git_fetch env = 0" and "git_reset env = 0"
    and "git_clean env = 0" and "npm_ci env = 0" and "npm_build env = 0"
    and "BACKUP_NAME env \<notin> set (map bk_name (backups st))"
    and "\<not> (case npm_build_tree env of
               None \<Rightarrow> False
             | Some d \<Rightarrow> d \<noteq> [] \<and> map_of d ''index.js'' \<noteq> None)
         \<or> \<not> rc_start_ok env \<or> \<not> alive_after_sleep env"
  shows "fst (deploy_update env st) = 1
       \<and> last_backup (snd (deploy_update env st)) = Some (BACKUP_PATH env)
       \<and> backups (snd (deploy_update env st)) =
           backups st @ [\<lparr> bk_name = BACKUP_NAME env, bk_mtime = clock env,
                           bk_files = snapshot_of st \<rparr>]
       \<and> dist_dir (snd (deploy_update env st)) = dist_dir st
       \<and> node_modules (snd (deploy_update env st)) = node_modules st
       \<and> package_json (snd (deploy_update env st)) = package_json st
       \<and> deployment_info_json (snd (deploy_update env st)) = Some (failure_record env)
       \<and> (rollback_start_ok env \<longrightarrow> service_running (snd (deploy_update env st)))"
proof -
  let ?st4 = "log_info ''Pre-deployment checks passed''
                (log_info ''Running pre-deployment checks...''
                  (detect_sudo env (log_start env st)))"
  let ?e = "\<lparr> bk_name = BACKUP_NAME env, bk_mtime = clock env, bk_files = snapshot_of st \<rparr>"
  from assms(2) have npm: "has_npm env" by (rule checks_passed_npm)
  note d = deploy_fatal_step [OF npm assms(3-8) assms(10), of ?st4]
  obtain r st5 where p: "deploy env ?st4 = (r, st5)" by (cases "deploy env ?st4")
  from assms(9) have fresh: "BACKUP_NAME env \<notin> set (map bk_name (backups ?st4))" by simp
  from d p have r: "r = Returned 1" and l: "last_backup st5 = Some (BACKUP_PATH env)"
    and b: "backups st5 = backups st @ [?e]"
    using backup_into_fresh [OF fresh, of "clock env" ?st4]
    by (simp_all add: snapshot_of_prologue)
  have n: "bk_name ?e = BACKUP_NAME env" by simp
  have j: "snap_package_json (bk_files ?e) \<noteq> None"
    using assms(1) by (simp add: snapshot_of_def)
  note h = handle_error_restores [OF l b n assms(9) j]
  have "deploy_update env st = handle_error env st5"
    by (simp add: deploy_update_checks_passed [OF assms(1,2)] p r)
  with h show ?thesis by (simp add: snapshot_of_def)
qed

subsection \<open>Retention of backups\<close>

lemma insort_key_append:
  "\<forall>y\<in>set ys. f x \<le> f y \<Longrightarrow> insort_key f x (xs @ ys) = insort_key f x xs @ ys"
proof (induction xs)
  case Nil
  then show ?case by (cases ys) simp_all
next
  case (Cons a xs)
  then show ?case by simp
qed

lemma sort_key_append_newer:
  assumes "\<forall>a\<in>set old. \<forall>b\<in>set news. f a < f b" and "sorted (map f news)"
  shows "sort_key f (old @ news) = sort_key f old @ news"
  using assms(1)
proof (induction old)
  case Nil
  from assms(2) show ?case by (simp add: sort_key_id_if_sorted)
next
  case (Cons a old)
  then have "sort_key f (old @ news) = sort_key f old @ news" by simp
  moreover from Cons.prems have "\<forall>y\<in>set news. f a \<le> f y" by (simp add: less_imp_le)
  ultimately show ?case by (simp add: insort_key_append)
qed

lemma filter_not_in_take:
  "distinct (map f xs) \<Longrightarrow> filter (\<lambda>x. f x \<notin> set (map f (take m xs))) xs = drop m xs"
proof (induction xs arbitrary: m)
  case Nil
  then show ?case by simp
next
  case (Cons x xs)
  show ?case
  proof (cases m)
    case 0
    then show ?thesis by simp
  next
    case (Suc k)
    from Cons.prems have d: "distinct (map f xs)" and nx: "f x \<notin> f ` set xs" by simp_all
    have "filter (\<lambda>y. f y \<notin> set (map f (take (Suc k) (x # xs)))) xs
            = filter (\<lambda>y. f y \<notin> set (map f (take k xs))) xs"
      using nx by (intro filter_cong refl) (force simp: image_iff)
    with Cons.IH [OF d, of k] Suc show ?thesis by simp
  qed
qed

lemma prune_backups_newer:
  assumes dn: "distinct (map bk_name (old @ news))"
    and newer: "\<forall>a\<in>set old. \<forall>b\<in>set news. bk_mtime a < bk_mtime b"
    and asc: "sorted_wrt (<) (map bk_mtime news)"
  shows "\<exists>Q. prune_backups (old @ news) = filter Q old @ drop (length news - 5) news
           \<and> (5 \<le> length news \<longrightarrow> filter Q old = [])"
proof -
  let ?D = "drop 5 (ls_1t (old @ news))"
  from asc have "sorted (map bk_mtime news)"
    by (rule strict_sorted_imp_sorted)
  with newer have srt: "sort_key bk_mtime (old @ news) = sort_key bk_mtime old @ news"
    by (rule sort_key_append_newer)
  then have ls: "ls_1t (old @ news) =
                   map bk_name (rev news) @ map bk_name (rev (sort_key bk_mtime old))"
    by (simp add: ls_1t_def)
  have D: "?D = map bk_name (rev (take (length news - 5) news)) @
                drop (5 - length news) (map bk_name (rev (sort_key bk_mtime old)))"
    by (simp add: ls drop_map drop_rev)
  have olds: "set (drop (5 - length news) (map bk_name (rev (sort_key bk_mtime old))))
                \<subseteq> bk_name ` set old"
    using set_drop_subset [of "5 - length news" "map bk_name (rev (sort_key bk_mtime old))"]
    by simp
  from dn have disj: "bk_name ` set old \<inter> bk_name ` set news = {}"
    and dnews: "distinct (map bk_name news)" by auto
  have "filter (\<lambda>b. bk_name b \<notin> set ?D) news
          = filter (\<lambda>b. bk_name b \<notin> set (map bk_name (take (length news - 5) news))) news"
    using olds disj by (intro filter_cong) (auto simp: D)
  also have "\<dots> = drop (length news - 5) news"
    using dnews by (rule filter_not_in_take)
  finally have fn: "filter (\<lambda>b. bk_name b \<notin> set ?D) news = drop (length news - 5) news" .
  have "filter (\<lambda>b. bk_name b \<notin> set ?D) old = []" if "5 \<le> length news"
    using that by (auto simp: D filter_empty_conv)
  then show ?thesis
    using fn by (intro exI [of _ "\<lambda>b. bk_name b \<notin> set ?D"]) (simp add: prune_backups_def)
qed

lemma length_prune_backups_le:
  assumes "distinct (map bk_name bs)"
  shows "length (prune_backups bs) \<le> 5"
proof -
  let ?L = "ls_1t bs"
  let ?kept = "prune_backups bs"
  have setL: "set ?L = bk_name ` set bs" by (simp add: ls_1t_def)
  have "set ?L = set (take 5 ?L) \<union> set (drop 5 ?L)"
    by (metis append_take_drop_id set_append)
  with setL have sub: "bk_name ` set ?kept \<subseteq> set (take 5 ?L)"
    by (auto simp: prune_backups_def)
  have "distinct (map bk_name ?kept)"
    using assms by (simp add: prune_backups_def distinct_map_filter)
  then have "length ?kept = card (bk_name ` set ?kept)"
    by (metis distinct_card length_map set_map)
  also have "\<dots> \<le> card (set (take 5 ?L))"
    using sub by (intro card_mono) simp_all
  also have "\<dots> \<le> length (take 5 ?L)" by (rule card_length)
  also have "\<dots> \<le> 5" by simp
  finally show ?thesis .
qed

lemma drop_window:
  "drop (length (drop (length xs - 5) xs @ ys) - 5) (drop (length xs - 5) xs @ ys)
     = drop (length (xs @ ys) - 5) (xs @ (ys :: 'a list))"
proof (cases "length xs \<le> 5")
  case True
  then show ?thesis by simp
next
  case False
  then have "length xs - 5 + length ys = length xs + length ys - 5" by simp
  with False show ?thesis by (simp add: min_def ac_simps)
qed

lemma distinct_sublists:
  assumes "distinct (A @ B @ C)" and "distinct A'" and "set A' \<subseteq> set A"
    and "distinct B'" and "set B' \<subseteq> set B"
  shows "distinct (A' @ B' @ C)"
  using assms by auto

lemma runs_backups:
  assumes "all_succeed envs st"
    and "backups st = old @ news"
    and "length news \<le> 5"
    and "distinct (map bk_name (old @ news) @ map BACKUP_NAME envs)"
    and "sorted_wrt (<) (map bk_mtime news @ map clock envs)"
    and "\<forall>a\<in>set old. \<forall>t\<in>set (map bk_mtime news @ map clock envs). bk_mtime a < t"
  shows "\<exists>Q E. backups (deploy_runs envs st) =
                  filter Q old @ drop (length (news @ E) - 5) (news @ E)
           \<and> map bk_name E = map BACKUP_NAME envs
           \<and> map bk_mtime E = map clock envs
           \<and> (envs \<noteq> [] \<and> 5 \<le> length (news @ E) \<longrightarrow> filter Q old = [])
           \<and> (envs \<noteq> [] \<longrightarrow> length (backups (deploy_runs envs st)) \<le> 5)"
  using assms
proof (induction envs arbitrary: st old news)
  case Nil
  then show ?case by (intro exI [of _ "\<lambda>b. True"] exI [of _ "[]"]) simp
next
  case (Cons env envs)
  let ?st1 = "snd (deploy_update env st)"
  let ?n = "BACKUP_NAME env"
  from Cons.prems(1) have ok: "fst (deploy_update env st) = 0" and rest: "all_succeed envs ?st1"
    by simp_all
  from deploy_update_success_backups [OF ok] Cons.prems(2)
  obtain stx where b1: "backups ?st1 = prune_backups (backup_into ?n (clock env) stx (old @ news))"
    by auto
  define e where "e = \<lparr> bk_name = ?n, bk_mtime = clock env, bk_files = snapshot_of stx \<rparr>"
  define news' where "news' = news @ [e]"
  from Cons.prems(4) have fresh: "?n \<notin> set (map bk_name (old @ news))" by auto
  from b1 backup_into_fresh [OF fresh] have b2: "backups ?st1 = prune_backups (old @ news')"
    by (simp add: e_def news'_def)
  have dn: "distinct (map bk_name (old @ news'))"
    using Cons.prems(4) by (auto simp: e_def news'_def)
  have newer: "\<forall>a\<in>set old. \<forall>b\<in>set news'. bk_mtime a < bk_mtime b"
    using Cons.prems(6) by (auto simp: e_def news'_def)
  have asc': "sorted_wrt (<) (map bk_mtime news' @ map clock envs)"
    using Cons.prems(5) by (simp add: e_def news'_def)
  then have asc: "sorted_wrt (<) (map bk_mtime news')"
    by (simp add: sorted_wrt_append)
  from prune_backups_newer [OF dn newer asc] b2
  obtain Q where b3: "backups ?st1 = filter Q old @ drop (length news' - 5) news'"
    and emp1: "5 \<le> length news' \<longrightarrow> filter Q old = []"
    by auto
  define news1 where "news1 = drop (length news' - 5) news'"
  have len': "length news' \<le> 6" using Cons.prems(3) by (simp add: news'_def)
  have len1: "length news1 \<le> 5" using len' by (simp add: news1_def)
  have sn1: "set news1 \<subseteq> set news'" unfolding news1_def by (rule set_drop_subset)
  have so1: "set (filter Q old) \<subseteq> set old" by simp
  have names': "map bk_name news' = map bk_name news @ [?n]"
    by (simp add: news'_def e_def)
  have d1: "distinct (map bk_name (filter Q old @ news1) @ map BACKUP_NAME envs)"
  proof -
    have "distinct (map bk_name old @ map bk_name news' @ map BACKUP_NAME envs)"
      using Cons.prems(4) by (simp add: names')
    moreover have "distinct (map bk_name (filter Q old))"
      using dn by (simp add: distinct_map_filter)
    moreover have "set (map bk_name (filter Q old)) \<subseteq> set (map bk_name old)" by auto
    moreover have "distinct (map bk_name news1)"
      using dn unfolding news1_def by (simp add: drop_map [symmetric])
    moreover have "set (map bk_name news1) \<subseteq> set (map bk_name news')" using sn1 by auto
    ultimately have "distinct (map bk_name (filter Q old) @ map bk_name news1 @ map BACKUP_NAME envs)"
      by (rule distinct_sublists)
    then show ?thesis by simp
  qed
  have s1: "sorted_wrt (<) (map bk_mtime news1 @ map clock envs)"
  proof -
    have "map bk_mtime news1 @ map clock envs
            = drop (length news' - 5) (map bk_mtime news' @ map clock envs)"
      by (simp add: news1_def drop_map)
    then show ?thesis using asc' by (simp only: sorted_wrt_drop)
  qed
  have m1: "\<forall>a\<in>set (filter Q old). \<forall>t\<in>set (map bk_mtime news1 @ map clock envs). bk_mtime a < t"
    using Cons.prems(6) newer sn1 by auto
  from b3 have b3': "backups ?st1 = filter Q old @ news1" by (simp add: news1_def)
  from Cons.IH [OF rest b3' len1 d1 s1 m1]
  obtain Q' E' where f: "backups (deploy_runs envs ?st1) =
                           filter Q' (filter Q old) @ drop (length (news1 @ E') - 5) (news1 @ E')"
    and nE: "map bk_name E' = map BACKUP_NAME envs"
    and tE: "map bk_mtime E' = map clock envs"
    and emp: "envs \<noteq> [] \<and> 5 \<le> length (news1 @ E') \<longrightarrow> filter Q' (filter Q old) = []"
    and le: "envs \<noteq> [] \<longrightarrow> length (backups (deploy_runs envs ?st1)) \<le> 5"
    by blast
  have le1: "length (backups ?st1) \<le> 5"
    using b2 length_prune_backups_le [OF dn] by simp
  have le': "length (backups (deploy_runs (env # envs) st)) \<le> 5"
    using le le1 by (cases envs) simp_all
  have w: "drop (length (news1 @ E') - 5) (news1 @ E') = drop (length (news' @ E') - 5) (news' @ E')"
    unfolding news1_def by (rule drop_window)
  have app: "news' @ E' = news @ e # E'" by (simp add: news'_def)
  have "filter Q' (filter Q old) = []" if big: "5 \<le> length (news @ e # E')"
  proof (cases "5 \<le> length news'")
    case True
    with emp1 show ?thesis by simp
  next
    case False
    then have eq: "news1 = news'" by (simp add: news1_def)
    from False big have "E' \<noteq> []" by (auto simp: news'_def)
    with nE have "envs \<noteq> []" by auto
    with emp eq big app show ?thesis by simp
  qed
  then show ?case
    using f w app nE tE le'
    by (intro exI [of _ "\<lambda>x. Q x \<and> Q' x"] exI [of _ "e # E'"]) (simp add: e_def)
qed

text \<open>
  Claim C6. Take any number of runs of the script, one after the other, all of
  them successful. The entries of the backup directory have distinct names, every
  run forms a backup name that is new, and the clock moves forward from run to run,
  past the times of the entries that were there at the start. Then after the last
  run at most five backups remain and the backups of the latest runs, up to five,
  are among them. From five runs on exactly five backups remain, and they are the
  ones the last five runs created.
\<close>

theorem backup_retention:
  assumes "all_succeed envs st"
    and "envs \<noteq> []"
    and "distinct (map bk_name (backups st) @ map BACKUP_NAME envs)"
    and "sorted_wrt (<) (map clock envs)"
    and "\<forall>b\<in>set (backups st). \<forall>e\<in>set envs. bk_mtime b < clock e"
  shows "length (backups (deploy_runs envs st)) \<le> 5
       \<and> set (map BACKUP_NAME (drop (length envs - 5) envs))
           \<subseteq> set (map bk_name (backups (deploy_runs envs st)))
       \<and> (5 \<le> length envs \<longrightarrow>
            length (backups (deploy_runs envs st)) = 5
          \<and> map bk_name (backups (deploy_runs envs st)) =
              map BACKUP_NAME (drop (length envs - 5) envs)
          \<and> map bk_mtime (backups (deploy_runs envs st)) =
              map clock (drop (length envs - 5) envs))"
proof -
  have "\<exists>Q E. backups (deploy_runs envs st) =
                 filter Q (backups st) @ drop (length E - 5) E
           \<and> map bk_name E = map BACKUP_NAME envs
           \<and> map bk_mtime E = map clock envs
           \<and> (envs \<noteq> [] \<and> 5 \<le> length E \<longrightarrow> filter Q (backups st) = [])
           \<and> (envs \<noteq> [] \<longrightarrow> length (backups (deploy_runs envs st)) \<le> 5)"
    using runs_backups [OF assms(1), of "backups st" "[]"] assms(3,4,5) by simp
  then obtain Q E where f: "backups (deploy_runs envs st) =
                              filter Q (backups st) @ drop (length E - 5) E"
    and nE: "map bk_name E = map BACKUP_NAME envs"
    and tE: "map bk_mtime E = map clock envs"
    and emp: "envs \<noteq> [] \<and> 5 \<le> length E \<longrightarrow> filter Q (backups st) = []"
    and le: "envs \<noteq> [] \<longrightarrow> length (backups (deploy_runs envs st)) \<le> 5"
    by blast
  from nE have len: "length E = length envs" by (metis length_map)
  have n: "map bk_name (drop (length envs - 5) E) =
             map BACKUP_NAME (drop (length envs - 5) envs)"
    using nE by (simp add: drop_map [symmetric])
  have t: "map bk_mtime (drop (length envs - 5) E) = map clock (drop (length envs - 5) envs)"
    using tE by (simp add: drop_map [symmetric])
  have kept: "set (map BACKUP_NAME (drop (length envs - 5) envs))
                \<subseteq> set (map bk_name (backups (deploy_runs envs st)))"
    using f n by (simp add: len)
  have five: "length (backups (deploy_runs envs st)) = 5
            \<and> map bk_name (backups (deploy_runs envs st)) =
                map BACKUP_NAME (drop (length envs - 5) envs)
            \<and> map bk_mtime (backups (deploy_runs envs st)) =
                map clock (drop (length envs - 5) envs)"
    if big: "5 \<le> length envs"
  proof -
    from big assms(2) emp len have "filter Q (backups st) = []" by simp
    with f have b: "backups (deploy_runs envs st) = drop (length envs - 5) E"
      by (simp add: len)
    with n t big len show ?thesis by simp
  qed
  from le assms(2) kept five show ?thesis by blast
qed

theorem backup_retention_witness:
  "all_succeed [sample_env ''20250101-000000'' 100, sample_env ''20250102-000000'' 200,
                sample_env ''20250103-000000'' 300, sample_env ''20250104-000000'' 400,
                sample_env ''20250105-000000'' 500, sample_env ''20250106-000000'' 600]
               sample_host
   \<and> length (backups
        (deploy_runs [sample_env ''20250101-000000'' 100, sample_env ''20250102-000000'' 200,
                      sample_env ''20250103-000000'' 300, sample_env ''20250104-000000'' 400,
                      sample_env ''20250105-000000'' 500, sample_env ''20250106-000000'' 600]
                     sample_host)) = 5
   \<and> map bk_name (backups
        (deploy_runs [sample_env ''20250101-000000'' 100, sample_env ''20250102-000000'' 200,
                      sample_env ''20250103-000000'' 300, sample_env ''20250104-000000'' 400,
                      sample_env ''20250105-000000'' 500, sample_env ''20250106-000000'' 600]
                     sample_host))
       = [''backup-20250102-000000'', ''backup-20250103-000000'', ''backup-20250104-000000'',
          ''backup-20250105-000000'', ''backup-20250106-000000'']"
proof -
  let ?envs = "[sample_env ''20250101-000000'' 100, sample_env ''20250102-000000'' 200,
                sample_env ''20250103-000000'' 300, sample_env ''20250104-000000'' 400,
                sample_env ''20250105-000000'' 500, sample_env ''20250106-000000'' 600]"
  have a: "all_succeed ?envs sample_host" by code_simp
  have b: "?envs \<noteq> []" by simp
  have c: "distinct (map bk_name (backups sample_host) @ map BACKUP_NAME ?envs)"
    by (simp add: sample_host_def BACKUP_NAME_def sample_env_def)
  have d: "sorted_wrt (<) (map clock ?envs)" by (simp add: sample_env_def)
  have e: "\<forall>b\<in>set (backups sample_host). \<forall>e\<in>set ?envs. bk_mtime b < clock e"
    by (simp add: sample_host_def)
  from backup_retention [OF a b c d e] a show ?thesis
    by (simp add: BACKUP_NAME_def sample_env_def)
qed

end
